theory Spec2Isabelle
  imports Main "HOL-Library.Sublist" "HOL-Library.Multiset"
begin

section \<open>Data model: pandas frames as used by preprocess.py\<close>

text \<open>
  A cell of a frame is a string code, a number, or the missing number NaN; the numbers
  of a file (years, weights, incomes) are taken as integers. Comparing a number or NaN
  with a string code by \<open>!=\<close> is True, and \<open>isin\<close> of a list of strings is False on
  them.
\<close>

datatype val = Str string | Num int | NaN

text \<open>
  The exceptions the loader can end with. \<open>ReadError\<close> stands for whatever
  \<open>pd.read_stata\<close> raises. \<open>DuplicateLabel\<close> marks the one place where this
  development does not follow pandas: selecting a single label that occurs more than once
  gives a frame instead of a series there, and the masking that follows is not modelled.
  The theorems below exclude it by \<open>no_rename_clash\<close>.
\<close>

datatype error =
    KeyError "string list"
  | IndexError
  | TypeError
  | ValueError
  | ReadError string
  | DuplicateLabel string

text \<open>
  A frame: the column labels in order, and the rows in order, each with its index label
  and its cells (one per column).
\<close>

record frame =
  columns :: "string list"
  rows :: "(nat \<times> val list) list"

type_synonym path = string

text \<open>
  The external collaborators of \<open>load_data\<close>: what \<open>Path(data_dir).glob(pattern)\<close>
  enumerates, and what \<open>pd.read_stata(path)\<close> returns or raises.
\<close>

record filesystem =
  glob :: "path \<Rightarrow> string \<Rightarrow> path list"
  read_stata :: "path \<Rightarrow> error + frame"

definition wf_frame :: "frame \<Rightarrow> bool" where
  "wf_frame df = list_all (\<lambda>lr. length (snd lr) = length (columns df)) (rows df)"

section \<open>The constant tables of \<open>_read_cis_pumf\<close>\<close>

definition cols :: "string list" where
  "cols =
    [''year'', ''pumfid'', ''personid'', ''fweight'',
     ''sex'', ''agegp'', ''marst'', ''immst'', ''yrimmg'',
     ''prov'', ''uszgap'',
     ''ttinc'', ''atinc'', ''mtinc'', ''gtr'',
     ''hhsize'', ''hhcomp'',
     ''dwltyp'', ''dwtenr'', ''repa'', ''suit'', ''mortg'', ''mortgm'', ''condmp'', ''rentm'']"

definition col_renamings :: "(string \<times> string) list" where
  "col_renamings =
    [(''marstp'', ''marst''), (''immstp'', ''immst''), (''yrimmgp'', ''yrimmg'')]"

definition missing_codes :: "(string \<times> string) list" where
  "missing_codes =
    [(''marst'', ''99''), (''immst'', ''9''), (''yrimmg'', ''9''),
     (''dwltyp'', ''9''), (''dwtenr'', ''9''), (''suit'', ''9'')]"

definition digit :: "nat \<Rightarrow> char" where
  "digit n = ''0123456789'' ! (n mod 10)"

fun decimal :: "nat \<Rightarrow> string" where
  "decimal n = (if n < 10 then [digit n] else decimal (n div 10) @ [digit n])"

declare decimal.simps [simp del]

text \<open>The format \<open>f"{i:02d}"\<close> on a non-negative integer.\<close>

definition fmt02d :: "nat \<Rightarrow> string" where
  "fmt02d i = (let s = decimal i in replicate (2 - length s) CHR ''0'' @ s)"

definition agegp_codes_2012_17 :: "string list" where
  "agegp_codes_2012_17 = map fmt02d [7..<16]"

definition agegp_codes_2018_22 :: "string list" where
  "agegp_codes_2018_22 = map fmt02d [6..<15]"

section \<open>The pandas operations used\<close>

text \<open>\<open>df.rename(columns=m)\<close>: labels that are keys of \<open>m\<close> are replaced.\<close>

definition rename_columns :: "(string \<times> string) list \<Rightarrow> frame \<Rightarrow> frame" where
  "rename_columns m df =
     df\<lparr>columns := map (\<lambda>c. case map_of m c of None \<Rightarrow> c | Some c' \<Rightarrow> c') (columns df)\<rparr>"

text \<open>The positions of a label among the columns, ascending.\<close>

definition get_loc :: "string list \<Rightarrow> string \<Rightarrow> nat list" where
  "get_loc cs key = filter (\<lambda>i. cs ! i = key) [0..<length cs]"

text \<open>
  \<open>df[keys]\<close> with a list of labels: KeyError naming the absent labels if there are any,
  else the columns at every position of each key, in the order of the keys.
\<close>

definition getitem_cols :: "frame \<Rightarrow> string list \<Rightarrow> error + frame" where
  "getitem_cols df keys =
     (case filter (\<lambda>k. k \<notin> set (columns df)) keys of
        k # ks \<Rightarrow> Inl (KeyError (k # ks))
      | [] \<Rightarrow>
          (let ix = concat (map (get_loc (columns df)) keys)
           in Inr \<lparr>columns = map (\<lambda>i. columns df ! i) ix,
                   rows = map (\<lambda>lr. (fst lr, map (\<lambda>i. snd lr ! i) ix)) (rows df)\<rparr>))"

text \<open>\<open>df[key]\<close> with one label: the series of that column.\<close>

definition getitem_col :: "frame \<Rightarrow> string \<Rightarrow> error + val list" where
  "getitem_col df key =
     (case get_loc (columns df) key of
        [] \<Rightarrow> Inl (KeyError [key])
      | [i] \<Rightarrow> Inr (map (\<lambda>lr. snd lr ! i) (rows df))
      | _ \<Rightarrow> Inl (DuplicateLabel key))"

text \<open>\<open>df[mask]\<close> with a boolean series aligned with the rows: the rows marked True.\<close>

definition getitem_mask :: "frame \<Rightarrow> bool list \<Rightarrow> frame" where
  "getitem_mask df bs = df\<lparr>rows := map fst (filter snd (zip (rows df) bs))\<rparr>"

text \<open>\<open>series != code\<close> and \<open>series.isin(codes)\<close>, elementwise.\<close>

definition ne_code :: "val list \<Rightarrow> string \<Rightarrow> bool list" where
  "ne_code s code = map (\<lambda>v. v \<noteq> Str code) s"

definition isin :: "val list \<Rightarrow> string list \<Rightarrow> bool list" where
  "isin s codes = map (\<lambda>v. v \<in> set (map Str codes)) s"

text \<open>\<open>series.iat[0]\<close>: IndexError on an empty series.\<close>

definition iat0 :: "val list \<Rightarrow> error + val" where
  "iat0 s = (case s of [] \<Rightarrow> Inl IndexError | v # _ \<Rightarrow> Inr v)"

text \<open>
  \<open>2012 <= year <= 2017\<close>: a comparison of an integer with a string raises TypeError,
  and every comparison with NaN is False.
\<close>

definition year_2012_17 :: "val \<Rightarrow> error + bool" where
  "year_2012_17 year =
     (case year of
        Num n \<Rightarrow> Inr (2012 \<le> n \<and> n \<le> 2017)
      | NaN \<Rightarrow> Inr False
      | Str _ \<Rightarrow> Inl TypeError)"

text \<open>
  \<open>pd.concat(dfs, ignore_index=True)\<close>: ValueError on no frames; else the rows of the
  frames in order, over the union of their columns in order of first appearance, a cell
  of a column a frame does not have being NaN, and the index renumbered from 0.
\<close>

definition union_columns :: "string list list \<Rightarrow> string list" where
  "union_columns css = rev (remdups (rev (concat css)))"

definition reindex_row :: "string list \<Rightarrow> string list \<Rightarrow> val list \<Rightarrow> val list" where
  "reindex_row cs df_cols r =
     map (\<lambda>c. case get_loc df_cols c of [] \<Rightarrow> NaN | i # _ \<Rightarrow> r ! i) cs"

definition concat_frames :: "frame list \<Rightarrow> error + frame" where
  "concat_frames dfs =
     (if dfs = [] then Inl ValueError
      else
        (let cs = union_columns (map columns dfs);
             rs = concat (map (\<lambda>df. map (\<lambda>lr. reindex_row cs (columns df) (snd lr)) (rows df)) dfs)
         in Inr \<lparr>columns = cs, rows = zip [0..<length rs] rs\<rparr>))"

section \<open>The loader\<close>

text \<open>The loop \<open>for col, code in missing_codes.items(): df = df[df[col] != code]\<close>.\<close>

fun drop_missing :: "frame \<Rightarrow> (string \<times> string) list \<Rightarrow> error + frame" where
  "drop_missing df [] = Inr df"
| "drop_missing df (cc # ccs) =
     (case getitem_col df (fst cc) of
        Inl e \<Rightarrow> Inl e
      | Inr s \<Rightarrow> drop_missing (getitem_mask df (ne_code s (snd cc))) ccs)"

definition read_cis_pumf :: "filesystem \<Rightarrow> path \<Rightarrow> error + frame" where
  "read_cis_pumf fs path =
     (case read_stata fs path of Inl e \<Rightarrow> Inl e | Inr df0 \<Rightarrow>
     (case getitem_cols (rename_columns col_renamings df0) cols of Inl e \<Rightarrow> Inl e | Inr df1 \<Rightarrow>
     (case drop_missing df1 missing_codes of Inl e \<Rightarrow> Inl e | Inr df2 \<Rightarrow>
     (case getitem_col df2 ''year'' of Inl e \<Rightarrow> Inl e | Inr ys \<Rightarrow>
     (case iat0 ys of Inl e \<Rightarrow> Inl e | Inr year \<Rightarrow>
     (case year_2012_17 year of Inl e \<Rightarrow> Inl e | Inr b \<Rightarrow>
     (case getitem_col df2 ''agegp'' of Inl e \<Rightarrow> Inl e | Inr ag \<Rightarrow>
        Inr (getitem_mask df2
              (isin ag (if b then agegp_codes_2012_17 else agegp_codes_2018_22))))))))))"

text \<open>The comprehension \<open>[_read_cis_pumf(f) for f in files]\<close>: the first exception ends it.\<close>

fun read_all :: "filesystem \<Rightarrow> path list \<Rightarrow> error + frame list" where
  "read_all fs [] = Inr []"
| "read_all fs (f # files) =
     (case read_cis_pumf fs f of
        Inl e \<Rightarrow> Inl e
      | Inr df \<Rightarrow> (case read_all fs files of Inl e \<Rightarrow> Inl e | Inr dfs \<Rightarrow> Inr (df # dfs)))"

definition load_data :: "filesystem \<Rightarrow> path \<Rightarrow> string \<Rightarrow> error + frame" where
  "load_data fs data_dir pattern =
     (let files = glob fs data_dir pattern
      in case read_all fs files of Inl e \<Rightarrow> Inl e | Inr dfs \<Rightarrow> concat_frames dfs)"

section \<open>Notions used to state the properties\<close>

text \<open>
  A parsed file in which renaming makes no two labels equal: it does not carry both the
  2012-17 and the 2018-22 name of a variable (and no label twice, as in every Stata file).
\<close>

definition no_rename_clash :: "frame \<Rightarrow> bool" where
  "no_rename_clash df0 = distinct (columns (rename_columns col_renamings df0))"

definition no_clash_in :: "filesystem \<Rightarrow> path list \<Rightarrow> bool" where
  "no_clash_in fs files =
     list_all (\<lambda>f. case read_stata fs f of Inl e \<Rightarrow> True | Inr df0 \<Rightarrow> no_rename_clash df0) files"




text \<open>
  A row over the columns \<open>cols\<close> that carries no missing-value code: \<open>marst\<close>,
  \<open>immst\<close>, \<open>yrimmg\<close>, \<open>dwltyp\<close>, \<open>dwtenr\<close> and \<open>suit\<close> are at the positions
  6, 7, 8, 17, 18 and 20 of \<open>cols\<close>.
\<close>

definition no_missing :: "val list \<Rightarrow> bool" where
  "no_missing r \<longleftrightarrow>
     r ! 6 \<noteq> Str ''99'' \<and> r ! 7 \<noteq> Str ''9'' \<and> r ! 8 \<noteq> Str ''9'' \<and>
     r ! 17 \<noteq> Str ''9'' \<and> r ! 18 \<noteq> Str ''9'' \<and> r ! 20 \<noteq> Str ''9''"

text \<open>
  The name that a variable of 2012-17 carries from 2018 onward, as the comment above
  \<open>col_renamings\<close> lists them: \<open>marst => marstp\<close>, \<open>immst => immstp\<close>,
  \<open>yrimmg => yrimmgp\<close>; every other name is unchanged.
\<close>

definition post2018_label :: "string \<Rightarrow> string" where
  "post2018_label c =
     (if c = ''marst'' then ''marstp''
      else if c = ''immst'' then ''immstp''
      else if c = ''yrimmg'' then ''yrimmgp''
      else c)"

section \<open>Example files\<close>

text \<open>
  A parsed file with the index \<open>0, 1, ...\<close> that \<open>pd.read_stata\<close> assigns, and a
  directory given by its files in enumeration order.
\<close>

definition stata_table :: "string list \<Rightarrow> val list list \<Rightarrow> frame" where
  "stata_table cs rs = \<lparr>columns = cs, rows = zip [0..<length rs] rs\<rparr>"

definition dir_of :: "(path \<times> frame) list \<Rightarrow> filesystem" where
  "dir_of files =
     \<lparr>glob = (\<lambda>d p. map fst files),
      read_stata = (\<lambda>f. case map_of files f of None \<Rightarrow> Inl (ReadError f) | Some df \<Rightarrow> Inr df)\<rparr>"

text \<open>
  Files with 27 variables: \<open>verdate\<close>, the 25 of \<open>cols\<close>, and \<open>efsize\<close>. A person is
  given by reference year, age group and marital status; \<open>out_row\<close> is the same person
  over the 25 columns of \<open>cols\<close>.
\<close>

definition names_2012_17 :: "string list" where
  "names_2012_17 = ''verdate'' # cols @ [''efsize'']"

definition names_2018_22 :: "string list" where
  "names_2018_22 =
    [''verdate'',
     ''year'', ''pumfid'', ''personid'', ''fweight'',
     ''sex'', ''agegp'', ''marstp'', ''immstp'', ''yrimmgp'',
     ''prov'', ''uszgap'',
     ''ttinc'', ''atinc'', ''mtinc'', ''gtr'',
     ''hhsize'', ''hhcomp'',
     ''dwltyp'', ''dwtenr'', ''repa'', ''suit'', ''mortg'', ''mortgm'', ''condmp'', ''rentm'',
     ''efsize'']"

definition cis_row :: "int \<Rightarrow> string \<Rightarrow> string \<Rightarrow> val list" where
  "cis_row y ag ms =
     [Str ''20230101'', Num y, Num 1001, Num 1, Num 250,
      Str ''1'', Str ag, Str ms, Str ''2'', Str ''6'',
      Str ''35'', Str ''1'',
      Num 52000, Num 43000, Num 50000, Num 2000,
      Num 3, Str ''2'',
      Str ''1'', Str ''1'', Str ''1'', Str ''1'', Str ''1'', Num 1200, Num 0, Num 0,
      Num 4]"

definition out_row :: "int \<Rightarrow> string \<Rightarrow> string \<Rightarrow> val list" where
  "out_row y ag ms =
     [Num y, Num 1001, Num 1, Num 250,
      Str ''1'', Str ag, Str ms, Str ''2'', Str ''6'',
      Str ''35'', Str ''1'',
      Num 52000, Num 43000, Num 50000, Num 2000,
      Num 3, Str ''2'',
      Str ''1'', Str ''1'', Str ''1'', Str ''1'', Str ''1'', Num 1200, Num 0, Num 0]"

definition cis2014 :: frame where
  "cis2014 = stata_table names_2012_17
     [cis_row 2014 ''07'' ''01'', cis_row 2014 ''06'' ''01'', cis_row 2014 ''09'' ''02'',
      cis_row 2014 ''15'' ''03'', cis_row 2014 ''10'' ''01'', cis_row 2014 ''12'' ''04'']"

definition cis2019 :: frame where
  "cis2019 = stata_table names_2018_22
     [cis_row 2019 ''06'' ''01'', cis_row 2019 ''08'' ''99'', cis_row 2019 ''09'' ''02'',
      cis_row 2019 ''14'' ''03'', cis_row 2019 ''10'' ''01'', cis_row 2019 ''12'' ''04'']"

definition cis2015 :: frame where
  "cis2015 = stata_table names_2012_17
     [cis_row 2015 ''07'' ''01'', cis_row 2015 ''08'' ''02'', cis_row 2015 ''09'' ''01'',
      cis_row 2015 ''10'' ''99'', cis_row 2015 ''11'' ''03'', cis_row 2015 ''12'' ''01'',
      cis_row 2015 ''13'' ''04'', cis_row 2015 ''14'' ''01'', cis_row 2015 ''15'' ''02'',
      cis_row 2015 ''07'' ''06'']"


definition cis_all_missing :: frame where
  "cis_all_missing = stata_table names_2012_17
     [cis_row 2016 ''08'' ''99'', cis_row 2016 ''09'' ''99'']"

definition cis_no_agegp :: frame where
  "cis_no_agegp = stata_table [''year'', ''pumfid'', ''marstp''] [[Num 2018, Num 1001, Str ''01'']]"

text \<open>The tables expected from \<open>cis2014\<close> alone, and from \<open>cis2014\<close> followed by \<open>cis2019\<close>.\<close>

definition out_2014 :: frame where
  "out_2014 =
     \<lparr>columns = cols,
      rows = [(0, out_row 2014 ''07'' ''01''), (2, out_row 2014 ''09'' ''02''),
              (3, out_row 2014 ''15'' ''03''), (4, out_row 2014 ''10'' ''01''),
              (5, out_row 2014 ''12'' ''04'')]\<rparr>"

definition out_2019 :: frame where
  "out_2019 =
     \<lparr>columns = cols,
      rows = [(0, out_row 2019 ''06'' ''01''), (2, out_row 2019 ''09'' ''02''),
              (3, out_row 2019 ''14'' ''03''), (4, out_row 2019 ''10'' ''01''),
              (5, out_row 2019 ''12'' ''04'')]\<rparr>"

definition out_2014_2019 :: frame where
  "out_2014_2019 =
     \<lparr>columns = cols,
      rows = [(0, out_row 2014 ''07'' ''01''), (1, out_row 2014 ''09'' ''02''),
              (2, out_row 2014 ''15'' ''03''), (3, out_row 2014 ''10'' ''01''),
              (4, out_row 2014 ''12'' ''04''),
              (5, out_row 2019 ''06'' ''01''), (6, out_row 2019 ''09'' ''02''),
              (7, out_row 2019 ''14'' ''03''), (8, out_row 2019 ''10'' ''01''),
              (9, out_row 2019 ''12'' ''04'')]\<rparr>"

definition dir_2014_2019 :: filesystem where
  "dir_2014_2019 = dir_of [(''cis2014.dta'', cis2014), (''cis2019.dta'', cis2019)]"

text \<open>A directory whose second file lacks most of the columns, \<open>agegp\<close> among them.\<close>

definition dir_schema_error :: filesystem where
  "dir_schema_error = dir_of [(''cis2014.dta'', cis2014), (''cis2018.dta'', cis_no_agegp)]"

text \<open>A directory whose second file has a missing-value code in every row.\<close>

definition dir_all_missing :: filesystem where
  "dir_all_missing = dir_of [(''cis2014.dta'', cis2014), (''cis2016.dta'', cis_all_missing)]"

text \<open>
  The 2015 file under the names of 2012-17 and under those of 2018 onward, and the table
  expected from either.
\<close>

definition cis2015p :: frame where
  "cis2015p = stata_table names_2018_22
     [cis_row 2015 ''07'' ''01'', cis_row 2015 ''08'' ''02'', cis_row 2015 ''09'' ''01'',
      cis_row 2015 ''10'' ''99'', cis_row 2015 ''11'' ''03'', cis_row 2015 ''12'' ''01'',
      cis_row 2015 ''13'' ''04'', cis_row 2015 ''14'' ''01'', cis_row 2015 ''15'' ''02'',
      cis_row 2015 ''07'' ''06'']"

definition dir_2015_both_names :: filesystem where
  "dir_2015_both_names = dir_of [(''cis2015.dta'', cis2015), (''cis2015p.dta'', cis2015p)]"

definition out_2015 :: frame where
  "out_2015 =
     \<lparr>columns = cols,
      rows = [(0, out_row 2015 ''07'' ''01''), (1, out_row 2015 ''08'' ''02''),
              (2, out_row 2015 ''09'' ''01''), (4, out_row 2015 ''11'' ''03''),
              (5, out_row 2015 ''12'' ''01''), (6, out_row 2015 ''13'' ''04''),
              (7, out_row 2015 ''14'' ''01''), (8, out_row 2015 ''15'' ''02''),
              (9, out_row 2015 ''07'' ''06'')]\<rparr>"

text \<open>The directory of 2014 and 2019 enumerated in the other order.\<close>

definition dir_2019_2014 :: filesystem where
  "dir_2019_2014 = dir_2014_2019\<lparr>glob := (\<lambda>d p. [''cis2019.dta'', ''cis2014.dta''])\<rparr>"

text \<open>The directory that holds the 2015 file alone, and the table expected from it.\<close>

definition dir_2015 :: filesystem where
  "dir_2015 = dir_of [(''cis2015.dta'', cis2015)]"

definition loaded_2015 :: frame where
  "loaded_2015 =
     \<lparr>columns = cols,
      rows = [(0, out_row 2015 ''07'' ''01''), (1, out_row 2015 ''08'' ''02''),
              (2, out_row 2015 ''09'' ''01''), (3, out_row 2015 ''11'' ''03''),
              (4, out_row 2015 ''12'' ''01''), (5, out_row 2015 ''13'' ''04''),
              (6, out_row 2015 ''14'' ''01''), (7, out_row 2015 ''15'' ''02''),
              (8, out_row 2015 ''07'' ''06'')]\<rparr>"



text \<open>
  A 2015 file of 10 rows of which exactly one has \<open>marst\<close> equal to \<open>'99'\<close>, and
  another one an age group outside the codes of 2012-17; and the table expected from it.
\<close>

definition cis2015_low_age :: frame where
  "cis2015_low_age = stata_table names_2012_17
     [cis_row 2015 ''07'' ''01'', cis_row 2015 ''03'' ''02'', cis_row 2015 ''09'' ''01'',
      cis_row 2015 ''10'' ''99'', cis_row 2015 ''11'' ''03'', cis_row 2015 ''12'' ''01'',
      cis_row 2015 ''13'' ''04'', cis_row 2015 ''14'' ''01'', cis_row 2015 ''15'' ''02'',
      cis_row 2015 ''07'' ''06'']"

definition dir_2015_low_age :: filesystem where
  "dir_2015_low_age = dir_of [(''cis2015.dta'', cis2015_low_age)]"

definition loaded_2015_low_age :: frame where
  "loaded_2015_low_age =
     \<lparr>columns = cols,
      rows = [(0, out_row 2015 ''07'' ''01''), (1, out_row 2015 ''09'' ''01''),
              (2, out_row 2015 ''11'' ''03''), (3, out_row 2015 ''12'' ''01''),
              (4, out_row 2015 ''13'' ''04''), (5, out_row 2015 ''14'' ''01''),
              (6, out_row 2015 ''15'' ''02''), (7, out_row 2015 ''07'' ''06'')]\<rparr>"

section \<open>Labels and positions\<close>

lemma filter_eq_upt: "filter (\<lambda>i. i = j) [0..<n] = (if j < n then [j] else [])"
  by (induction n) auto

lemma get_loc_nth:
  assumes "distinct cs" "j < length cs"
  shows "get_loc cs (cs ! j) = [j]"
proof -
  have "filter (\<lambda>i. cs ! i = cs ! j) [0..<length cs] = filter (\<lambda>i. i = j) [0..<length cs]"
    using assms by (intro filter_cong) (auto simp: nth_eq_iff_index_eq)
  then show ?thesis using assms by (simp add: get_loc_def filter_eq_upt)
qed

lemma nth_get_loc: "map (\<lambda>i. cs ! i) (get_loc cs c) = replicate (length (get_loc cs c)) c"
  by (auto simp: get_loc_def map_replicate_const[symmetric] intro!: map_cong)

lemma get_loc_single:
  assumes "distinct cs" "c \<in> set cs"
  shows "length (get_loc cs c) = 1"
  using assms get_loc_nth by (metis in_set_conv_nth length_Cons list.size(3) One_nat_def)

lemma get_loc_cols:
  "get_loc cols ''year'' = [0]" "get_loc cols ''agegp'' = [5]"
  "get_loc cols ''marst'' = [6]" "get_loc cols ''immst'' = [7]" "get_loc cols ''yrimmg'' = [8]"
  "get_loc cols ''dwltyp'' = [17]" "get_loc cols ''dwtenr'' = [18]" "get_loc cols ''suit'' = [20]"
  by code_simp+

lemma distinct_cols: "distinct cols"
  by code_simp

lemma length_cols: "length cols = 25"
  by code_simp

section \<open>Selecting columns and masking rows\<close>

lemma mask_map: "map fst (filter snd (zip xs (map f xs))) = filter f xs"
  by (induction xs) auto

lemma getitem_mask_ne:
  "getitem_mask df (ne_code (map g (rows df)) code) =
     df\<lparr>rows := filter (\<lambda>lr. g lr \<noteq> Str code) (rows df)\<rparr>"
  by (simp add: getitem_mask_def ne_code_def mask_map comp_def)

lemma getitem_mask_isin:
  "getitem_mask df (isin (map g (rows df)) codes) =
     df\<lparr>rows := filter (\<lambda>lr. g lr \<in> Str ` set codes) (rows df)\<rparr>"
  by (simp add: getitem_mask_def isin_def mask_map comp_def)

lemma length_concat_singletons:
  "\<forall>k\<in>set keys. length (f k) = 1 \<Longrightarrow> length (concat (map f keys)) = length keys"
  by (induction keys) auto

lemma getitem_cols_distinct:
  assumes "distinct (columns df)" "getitem_cols df keys = Inr df1"
  shows "columns df1 = keys" and "list_all (\<lambda>lr. length (snd lr) = length keys) (rows df1)"
    and "map fst (rows df1) = map fst (rows df)"
proof -
  let ?cs = "columns df"
  let ?ix = "concat (map (get_loc ?cs) keys)"
  have none: "filter (\<lambda>k. k \<notin> set ?cs) keys = []"
    using assms(2) by (auto simp: getitem_cols_def split: list.splits)
  then have pres: "\<forall>k\<in>set keys. k \<in> set ?cs"
    by (auto simp: filter_empty_conv)
  have df1: "df1 = \<lparr>columns = map (\<lambda>i. ?cs ! i) ?ix,
                     rows = map (\<lambda>lr. (fst lr, map (\<lambda>i. snd lr ! i) ?ix)) (rows df)\<rparr>"
    using assms(2) none by (simp add: getitem_cols_def Let_def)
  have one: "\<forall>k\<in>set keys. length (get_loc ?cs k) = 1"
    using pres assms(1) by (simp add: get_loc_single)
  have "map (\<lambda>i. ?cs ! i) ?ix = concat (map (\<lambda>k. map (\<lambda>i. ?cs ! i) (get_loc ?cs k)) keys)"
    by (simp add: map_concat comp_def)
  also have "\<dots> = concat (map (\<lambda>k. [k]) keys)"
    using one by (intro arg_cong[where f=concat] map_cong) (simp_all add: nth_get_loc)
  also have "\<dots> = keys" by (induction keys) auto
  finally show "columns df1 = keys" by (simp add: df1)
  have "length ?ix = length keys" using one by (rule length_concat_singletons)
  then show "list_all (\<lambda>lr. length (snd lr) = length keys) (rows df1)"
    by (simp add: df1 list_all_iff)
  show "map fst (rows df1) = map fst (rows df)"
    by (simp add: df1 comp_def)
qed

lemma getitem_cols_missing:
  assumes "k \<in> set keys" "k \<notin> set (columns df)"
  shows "\<exists>ks. getitem_cols df keys = Inl (KeyError ks) \<and> k \<in> set ks"
proof -
  have "k \<in> set (filter (\<lambda>k. k \<notin> set (columns df)) keys)" using assms by simp
  then show ?thesis
    by (cases "filter (\<lambda>k. k \<notin> set (columns df)) keys") (auto simp: getitem_cols_def)
qed

lemma getitem_col_single:
  "get_loc (columns df) c = [i] \<Longrightarrow> getitem_col df c = Inr (map (\<lambda>lr. snd lr ! i) (rows df))"
  by (simp add: getitem_col_def)

lemma getitem_col_cols:
  assumes "columns df = cols"
  shows "getitem_col df ''year'' = Inr (map (\<lambda>lr. snd lr ! 0) (rows df))"
    and "getitem_col df ''agegp'' = Inr (map (\<lambda>lr. snd lr ! 5) (rows df))"
    and "getitem_col df ''marst'' = Inr (map (\<lambda>lr. snd lr ! 6) (rows df))"
    and "getitem_col df ''immst'' = Inr (map (\<lambda>lr. snd lr ! 7) (rows df))"
    and "getitem_col df ''yrimmg'' = Inr (map (\<lambda>lr. snd lr ! 8) (rows df))"
    and "getitem_col df ''dwltyp'' = Inr (map (\<lambda>lr. snd lr ! 17) (rows df))"
    and "getitem_col df ''dwtenr'' = Inr (map (\<lambda>lr. snd lr ! 18) (rows df))"
    and "getitem_col df ''suit'' = Inr (map (\<lambda>lr. snd lr ! 20) (rows df))"
  using assms by (simp_all add: getitem_col_def get_loc_cols)

lemma concat_map_singleton: "concat (map (\<lambda>k. [f k]) keys) = map f keys"
  by (induction keys) auto

lemma get_loc_singleton:
  assumes "distinct cs" "c \<in> set cs"
  shows "\<exists>j. get_loc cs c = [j]"
proof -
  from assms(2) obtain j where "j < length cs" "cs ! j = c"
    by (auto simp: in_set_conv_nth)
  with get_loc_nth[OF assms(1), of j] show ?thesis by auto
qed

lemma getitem_cols_rows:
  assumes d: "distinct (columns df)" and g: "getitem_cols df keys = Inr df1"
  shows "rows df1 = map (\<lambda>lr. (fst lr, map (\<lambda>k. snd lr ! hd (get_loc (columns df) k)) keys)) (rows df)"
proof -
  let ?cs = "columns df"
  let ?ix = "concat (map (get_loc ?cs) keys)"
  have none: "filter (\<lambda>k. k \<notin> set ?cs) keys = []"
    using g by (auto simp: getitem_cols_def split: list.splits)
  then have pres: "\<forall>k\<in>set keys. k \<in> set ?cs"
    by (auto simp: filter_empty_conv)
  have one: "get_loc ?cs k = [hd (get_loc ?cs k)]" if "k \<in> set keys" for k
    using get_loc_singleton[OF d, of k] pres that by auto
  have "map (get_loc ?cs) keys = map (\<lambda>k. [hd (get_loc ?cs k)]) keys"
    using one by (intro map_cong refl) simp
  then have ix: "?ix = map (\<lambda>k. hd (get_loc ?cs k)) keys"
    by (simp only: concat_map_singleton)
  have "rows df1 = map (\<lambda>lr. (fst lr, map (\<lambda>i. snd lr ! i) ?ix)) (rows df)"
    using g none by (auto simp: getitem_cols_def Let_def)
  then show ?thesis unfolding ix by (simp add: comp_def)
qed

lemma getitem_cols_series:
  assumes d: "distinct (columns df)" and dk: "distinct keys"
    and g: "getitem_cols df keys = Inr df1" and k: "k \<in> set keys"
  shows "getitem_col df1 k = getitem_col df k"
proof -
  let ?cs = "columns df"
  from k obtain m where m: "m < length keys" and km: "keys ! m = k"
    by (auto simp: in_set_conv_nth)
  have c1: "columns df1 = keys" by (rule getitem_cols_distinct(1)[OF d g])
  have lm: "get_loc (columns df1) k = [m]"
    unfolding c1 using get_loc_nth[OF dk m] km by simp
  have "filter (\<lambda>k. k \<notin> set ?cs) keys = []"
    using g by (auto simp: getitem_cols_def split: list.splits)
  then have "k \<in> set ?cs" using k by (auto simp: filter_empty_conv)
  then obtain j where j: "get_loc ?cs k = [j]"
    using get_loc_singleton[OF d] by blast
  have "map (\<lambda>lr. snd lr ! m) (rows df1) = map (\<lambda>lr. snd lr ! j) (rows df)"
    unfolding getitem_cols_rows[OF d g] using m km j by (simp add: comp_def)
  then show ?thesis
    by (simp add: getitem_col_single[OF lm] getitem_col_single[OF j])
qed


section \<open>The loop over the missing-value codes\<close>

lemma drop_missing_general:
  assumes "\<forall>cc\<in>set ccs. \<exists>i. get_loc (columns df) (fst cc) = [i]"
  shows "drop_missing df ccs =
           Inr (df\<lparr>rows := filter (\<lambda>lr. \<forall>cc\<in>set ccs.
                   snd lr ! hd (get_loc (columns df) (fst cc)) \<noteq> Str (snd cc)) (rows df)\<rparr>)"
  using assms
proof (induction ccs arbitrary: df)
  case Nil
  then show ?case by simp
next
  case (Cons cc ccs)
  from Cons.prems obtain i where i: "get_loc (columns df) (fst cc) = [i]" by auto
  let ?df' = "df\<lparr>rows := filter (\<lambda>lr. snd lr ! i \<noteq> Str (snd cc)) (rows df)\<rparr>"
  have step: "getitem_mask df (ne_code (map (\<lambda>lr. snd lr ! i) (rows df)) (snd cc)) = ?df'"
    by (rule getitem_mask_ne)
  have "\<forall>cc\<in>set ccs. \<exists>i. get_loc (columns ?df') (fst cc) = [i]"
    using Cons.prems by simp
  from Cons.IH[OF this] show ?case
    by (simp add: getitem_col_single[OF i] step i conj_commute cong: conj_cong)
qed

lemma drop_missing_cols:
  assumes "columns df = cols"
  shows "drop_missing df missing_codes =
           Inr (df\<lparr>rows := filter (\<lambda>lr. no_missing (snd lr)) (rows df)\<rparr>)"
proof -
  have "\<forall>cc\<in>set missing_codes. \<exists>i. get_loc (columns df) (fst cc) = [i]"
    by (simp add: assms missing_codes_def get_loc_cols)
  from drop_missing_general[OF this] show ?thesis
    by (simp add: assms missing_codes_def get_loc_cols no_missing_def)
qed

section \<open>The per-file reader\<close>

lemma iat0_map: "iat0 (map g xs) = (case xs of [] \<Rightarrow> Inl IndexError | x # _ \<Rightarrow> Inr (g x))"
  by (cases xs) (simp_all add: iat0_def)

lemma read_cis_pumf_eq:
  assumes rd: "read_stata fs p = Inr df0"
    and df1: "getitem_cols (rename_columns col_renamings df0) cols = Inr df1"
    and c1: "columns df1 = cols"
  shows "read_cis_pumf fs p =
           (if filter (\<lambda>lr. no_missing (snd lr)) (rows df1) = [] then Inl IndexError
            else
              (case year_2012_17 (snd (hd (filter (\<lambda>lr. no_missing (snd lr)) (rows df1))) ! 0) of
                 Inl e \<Rightarrow> Inl e
               | Inr b \<Rightarrow>
                   Inr (df1\<lparr>rows := filter (\<lambda>lr. snd lr ! 5 \<in> Str `
                          set (if b then agegp_codes_2012_17 else agegp_codes_2018_22))
                          (filter (\<lambda>lr. no_missing (snd lr)) (rows df1))\<rparr>)))"
proof -
  let ?kept = "filter (\<lambda>lr. no_missing (snd lr)) (rows df1)"
  let ?df2 = "df1\<lparr>rows := ?kept\<rparr>"
  have d2: "drop_missing df1 missing_codes = Inr ?df2"
    by (rule drop_missing_cols[OF c1])
  have c2: "columns ?df2 = cols" using c1 by simp
  have ys: "getitem_col ?df2 ''year'' = Inr (map (\<lambda>lr. snd lr ! 0) ?kept)"
    using getitem_col_cols(1)[OF c2] by simp
  have ag: "getitem_col ?df2 ''agegp'' = Inr (map (\<lambda>lr. snd lr ! 5) (rows ?df2))"
    by (rule getitem_col_cols(2)[OF c2])
  have m: "getitem_mask ?df2 (isin (map (\<lambda>lr. snd lr ! 5) (rows ?df2)) cs) =
           df1\<lparr>rows := filter (\<lambda>lr. snd lr ! 5 \<in> Str ` set cs) ?kept\<rparr>" for cs
    by (simp only: getitem_mask_isin) simp
  have e: "read_cis_pumf fs p =
          (case iat0 (map (\<lambda>lr. snd lr ! 0) ?kept) of Inl e \<Rightarrow> Inl e | Inr year \<Rightarrow>
          (case year_2012_17 year of Inl e \<Rightarrow> Inl e | Inr b \<Rightarrow>
             Inr (df1\<lparr>rows := filter (\<lambda>lr. snd lr ! 5 \<in> Str `
                    set (if b then agegp_codes_2012_17 else agegp_codes_2018_22)) ?kept\<rparr>)))"
    by (simp only: read_cis_pumf_def rd df1 d2 ys ag sum.case m)
  show ?thesis
    unfolding e by (cases ?kept) (simp_all only: iat0_map list.case sum.case list.sel if_True if_False list.distinct refl simp_thms)
qed

lemma read_cis_pumf_Inr:
  assumes rd: "read_stata fs p = Inr df0"
    and nc: "no_rename_clash df0"
    and out: "read_cis_pumf fs p = Inr out"
  shows "\<exists>df1 kept b.
           getitem_cols (rename_columns col_renamings df0) cols = Inr df1 \<and>
           columns df1 = cols \<and>
           kept = filter (\<lambda>lr. no_missing (snd lr)) (rows df1) \<and>
           kept \<noteq> [] \<and>
           year_2012_17 (snd (hd kept) ! 0) = Inr b \<and>
           out = df1\<lparr>rows := filter (\<lambda>lr. snd lr ! 5 \<in> Str `
                   set (if b then agegp_codes_2012_17 else agegp_codes_2018_22)) kept\<rparr>"
proof -
  from out rd obtain df1 where
    df1: "getitem_cols (rename_columns col_renamings df0) cols = Inr df1"
    by (auto simp: read_cis_pumf_def split: sum.splits)
  have c1: "columns df1 = cols"
    using getitem_cols_distinct(1)[OF _ df1] nc by (simp add: no_rename_clash_def)
  let ?kept = "filter (\<lambda>lr. no_missing (snd lr)) (rows df1)"
  note e = read_cis_pumf_eq[OF rd df1 c1]
  from out e have k: "?kept \<noteq> []"
    by (cases "?kept = []") simp_all
  from out e k obtain b where b: "year_2012_17 (snd (hd ?kept) ! 0) = Inr b"
    by (cases "year_2012_17 (snd (hd ?kept) ! 0)") simp_all
  from out have "out = df1\<lparr>rows := filter (\<lambda>lr. snd lr ! 5 \<in> Str `
                   set (if b then agegp_codes_2012_17 else agegp_codes_2018_22)) ?kept\<rparr>"
    unfolding e by (simp only: k b if_False sum.case sum.inject)
  with df1 c1 k b show ?thesis by (intro exI[of _ df1] exI[of _ ?kept] exI[of _ b]) simp
qed

lemma read_cis_pumf_shape:
  assumes rd: "read_stata fs p = Inr df0"
    and nc: "no_rename_clash df0"
    and out: "read_cis_pumf fs p = Inr out"
  shows "columns out = cols" and "list_all (\<lambda>lr. length (snd lr) = length cols) (rows out)"
proof -
  from read_cis_pumf_Inr[OF rd nc out] obtain df1 kept b where
    df1: "getitem_cols (rename_columns col_renamings df0) cols = Inr df1"
    and c1: "columns df1 = cols"
    and k: "kept = filter (\<lambda>lr. no_missing (snd lr)) (rows df1)"
    and o: "out = df1\<lparr>rows := filter (\<lambda>lr. snd lr ! 5 \<in> Str `
              set (if b then agegp_codes_2012_17 else agegp_codes_2018_22)) kept\<rparr>"
    by blast
  show "columns out = cols" using o c1 by simp
  have "list_all (\<lambda>lr. length (snd lr) = length cols) (rows df1)"
    using getitem_cols_distinct(2)[OF _ df1] nc by (simp add: no_rename_clash_def)
  then show "list_all (\<lambda>lr. length (snd lr) = length cols) (rows out)"
    by (simp add: o k list_all_iff)
qed

lemma read_cis_pumf_reads:
  "read_cis_pumf fs p = Inr out \<Longrightarrow> \<exists>df0. read_stata fs p = Inr df0"
  by (auto simp: read_cis_pumf_def split: sum.splits)

section \<open>Reading every file and concatenating\<close>

lemma read_all_Inr:
  "read_all fs files = Inr dfs \<longleftrightarrow> list_all2 (\<lambda>f df. read_cis_pumf fs f = Inr df) files dfs"
proof (induction files arbitrary: dfs)
  case Nil
  then show ?case by auto
next
  case (Cons f files)
  show ?case
  proof (cases "read_all fs files")
    case (Inl e)
    then have "\<not> list_all2 (\<lambda>f df. read_cis_pumf fs f = Inr df) files ds" for ds
      using Cons.IH[of ds] by simp
    with Inl show ?thesis
      by (cases dfs) (auto split: sum.splits)
  next
    case (Inr ds)
    then have "list_all2 (\<lambda>f df. read_cis_pumf fs f = Inr df) files ds' \<longleftrightarrow> ds' = ds" for ds'
      using Cons.IH[of ds'] by auto
    with Inr show ?thesis
      by (cases dfs) (auto split: sum.splits)
  qed
qed

lemma read_all_fails:
  "f \<in> set files \<Longrightarrow> read_cis_pumf fs f = Inl e \<Longrightarrow> \<exists>e'. read_all fs files = Inl e'"
  by (induction files) (auto split: sum.splits)

lemma read_all_first_failure:
  "\<forall>g\<in>set pre. \<exists>df. read_cis_pumf fs g = Inr df \<Longrightarrow> read_cis_pumf fs f = Inl e \<Longrightarrow>
   read_all fs (pre @ f # post) = Inl e"
  by (induction pre) (auto split: sum.splits)

lemma remdups_append_subset: "set ys \<subseteq> set zs \<Longrightarrow> remdups (ys @ zs) = remdups zs"
  by (induction ys) auto

lemma union_columns_same:
  assumes "css \<noteq> []" "\<forall>c\<in>set css. c = cs" "distinct cs"
  shows "union_columns css = cs"
proof -
  from assms(1,2) obtain rest where css: "css = cs # rest" and r: "\<forall>c\<in>set rest. c = cs"
    by (cases css) auto
  have sub: "set (rev (concat rest)) \<subseteq> set (rev cs)" using r by auto
  have "rev (concat css) = rev (concat rest) @ rev cs" by (simp add: css)
  then have "remdups (rev (concat css)) = remdups (rev cs)"
    using remdups_append_subset[OF sub] by simp
  also have "\<dots> = rev cs" using assms(3) by (simp add: distinct_remdups_id)
  finally show ?thesis by (simp add: union_columns_def)
qed

lemma reindex_row_same:
  assumes "distinct cs" "length r = length cs"
  shows "reindex_row cs cs r = r"
proof (rule nth_equalityI)
  show "length (reindex_row cs cs r) = length r" using assms by (simp add: reindex_row_def)
next
  fix i assume "i < length (reindex_row cs cs r)"
  then have i: "i < length cs" by (simp add: reindex_row_def)
  then show "reindex_row cs cs r ! i = r ! i"
    using get_loc_nth[OF assms(1) i] by (simp add: reindex_row_def)
qed

lemma concat_frames_same:
  assumes ne: "dfs \<noteq> []" and d: "distinct cs"
    and cs: "\<forall>df\<in>set dfs. columns df = cs"
    and len: "\<forall>df\<in>set dfs. list_all (\<lambda>lr. length (snd lr) = length cs) (rows df)"
  shows "concat_frames dfs =
           Inr \<lparr>columns = cs,
                rows = zip [0..<length (concat (map rows dfs))]
                         (concat (map (\<lambda>df. map snd (rows df)) dfs))\<rparr>"
proof -
  have u: "union_columns (map columns dfs) = cs"
    using ne cs by (intro union_columns_same[OF _ _ d]) auto
  have rs: "concat (map (\<lambda>df. map (\<lambda>lr. reindex_row cs (columns df) (snd lr)) (rows df)) dfs)
            = concat (map (\<lambda>df. map snd (rows df)) dfs)"
    using cs len
    by (intro arg_cong[where f=concat] map_cong refl)
       (auto simp: list_all_iff reindex_row_same[OF d])
  have l: "length (concat (map (\<lambda>df. map snd (rows df)) dfs)) = length (concat (map rows dfs))"
    by (simp add: length_concat comp_def)
  show ?thesis using ne by (simp add: concat_frames_def Let_def u rs l)
qed

lemma no_clash_inD:
  "no_clash_in fs files \<Longrightarrow> f \<in> set files \<Longrightarrow> read_stata fs f = Inr df0 \<Longrightarrow> no_rename_clash df0"
  by (auto simp: no_clash_in_def list_all_iff split: sum.splits)

lemma read_all_shape:
  assumes nc: "no_clash_in fs files"
    and ra: "list_all2 (\<lambda>f df. read_cis_pumf fs f = Inr df) files dfs"
    and df: "df \<in> set dfs"
  shows "columns df = cols" and "list_all (\<lambda>lr. length (snd lr) = length cols) (rows df)"
proof -
  from df obtain i where i: "i < length dfs" and di: "dfs ! i = df"
    by (auto simp: in_set_conv_nth)
  have len: "length files = length dfs" using ra by (rule list_all2_lengthD)
  have r: "read_cis_pumf fs (files ! i) = Inr df"
    using list_all2_nthD2[OF ra i] di by simp
  define f where "f = files ! i"
  have f: "f \<in> set files" using i len by (simp add: f_def)
  note r = r[folded f_def]
  from read_cis_pumf_reads[OF r] obtain df0 where rd: "read_stata fs f = Inr df0" by blast
  note c = no_clash_inD[OF nc f rd]
  show "columns df = cols" by (rule read_cis_pumf_shape(1)[OF rd c r])
  show "list_all (\<lambda>lr. length (snd lr) = length cols) (rows df)"
    by (rule read_cis_pumf_shape(2)[OF rd c r])
qed

lemma load_data_Inr:
  assumes nc: "no_clash_in fs (glob fs d p)" and out: "load_data fs d p = Inr out"
  shows "\<exists>dfs. dfs \<noteq> [] \<and>
           list_all2 (\<lambda>f df. read_cis_pumf fs f = Inr df) (glob fs d p) dfs \<and>
           out = \<lparr>columns = cols,
                  rows = zip [0..<length (concat (map rows dfs))]
                           (concat (map (\<lambda>df. map snd (rows df)) dfs))\<rparr>"
proof -
  from out obtain dfs where ra: "read_all fs (glob fs d p) = Inr dfs"
    and cf: "concat_frames dfs = Inr out"
    by (auto simp: load_data_def Let_def split: sum.splits)
  from cf have ne: "dfs \<noteq> []" by (auto simp: concat_frames_def)
  from ra have l2: "list_all2 (\<lambda>f df. read_cis_pumf fs f = Inr df) (glob fs d p) dfs"
    by (simp add: read_all_Inr)
  have "concat_frames dfs =
           Inr \<lparr>columns = cols,
                rows = zip [0..<length (concat (map rows dfs))]
                         (concat (map (\<lambda>df. map snd (rows df)) dfs))\<rparr>"
    using read_all_shape[OF nc l2]
    by (intro concat_frames_same[OF ne distinct_cols]) auto
  with cf ne l2 show ?thesis by auto
qed

lemma load_data_fails:
  "f \<in> set (glob fs d p) \<Longrightarrow> read_cis_pumf fs f = Inl e \<Longrightarrow> \<exists>e'. load_data fs d p = Inl e'"
  using read_all_fails[of f "glob fs d p" fs e] by (auto simp: load_data_def)

lemma snd_zip_mem: "lr \<in> set (zip xs ys) \<Longrightarrow> snd lr \<in> set ys"
  by (cases lr) (auto dest: set_zip_rightD)

lemma load_data_row_length:
  assumes nc: "no_clash_in fs (glob fs d p)" and out: "load_data fs d p = Inr out"
  shows "list_all (\<lambda>lr. length (snd lr) = length cols) (rows out)"
proof -
  from load_data_Inr[OF nc out] obtain dfs where
    l2: "list_all2 (\<lambda>f df. read_cis_pumf fs f = Inr df) (glob fs d p) dfs"
    and o: "out = \<lparr>columns = cols,
                  rows = zip [0..<length (concat (map rows dfs))]
                           (concat (map (\<lambda>df. map snd (rows df)) dfs))\<rparr>"
    by blast
  have "length r = length cols" if "r \<in> set (concat (map (\<lambda>df. map snd (rows df)) dfs))" for r
    using that read_all_shape(2)[OF nc l2] by (auto simp: list_all_iff)
  then show ?thesis
    by (auto simp: o list_all_iff dest!: snd_zip_mem)
qed

lemma length_concat_rows:
  "length (concat (map (\<lambda>df. map snd (rows df)) dfs)) = length (concat (map rows dfs))"
  by (simp add: length_concat comp_def)

lemma rename_post2018_label:
  assumes cs: "columns raw_post = map post2018_label (columns raw_pre)"
    and rs: "rows raw_post = rows raw_pre"
  shows "rename_columns col_renamings raw_post = rename_columns col_renamings raw_pre"
proof -
  have rn: "(case map_of col_renamings (post2018_label c) of
               None \<Rightarrow> post2018_label c | Some c' \<Rightarrow> c')
            = (case map_of col_renamings c of None \<Rightarrow> c | Some c' \<Rightarrow> c')" for c
    by (simp add: col_renamings_def post2018_label_def)
  have "columns (rename_columns col_renamings raw_post) = columns (rename_columns col_renamings raw_pre)"
    by (simp add: rename_columns_def cs comp_def rn)
  moreover have "rows (rename_columns col_renamings raw_post) = rows (rename_columns col_renamings raw_pre)"
    by (simp add: rename_columns_def rs)
  ultimately show ?thesis by simp
qed

lemma read_cis_pumf_cong:
  "read_stata fs2 = read_stata fs1 \<Longrightarrow> read_cis_pumf fs2 f = read_cis_pumf fs1 f"
  by (simp add: read_cis_pumf_def)

lemma list_all2_map_projr:
  assumes "\<forall>f\<in>set files. \<exists>df. g f = Inr df"
  shows "list_all2 (\<lambda>f df. g f = Inr df) files (map (\<lambda>f. projr (g f)) files)"
  using assms by (induction files) auto

lemma list_all2_functional:
  assumes "list_all2 (\<lambda>f df. g f = Inr df) files dfs"
  shows "dfs = map (\<lambda>f. projr (g f)) files"
  using assms by (induction rule: list_all2_induct) auto

lemma mset_concat_map:
  "mset (concat (map h xs)) = (\<Sum>x\<in>#mset xs. mset (h x))"
  by (induction xs) auto

lemma snd_rows_zip:
  "map snd (zip [0..<length (concat (map rows dfs))] (concat (map (\<lambda>df. map snd (rows df)) dfs)))
     = concat (map (\<lambda>df. map snd (rows df)) dfs)"
  by (simp add: length_concat_rows)

lemma read_cis_pumf_rows:
  assumes rd: "read_stata fs f = Inr df0"
    and nc: "no_rename_clash df0"
    and out: "read_cis_pumf fs f = Inr out"
  shows "\<forall>lr\<in>set (rows out). no_missing (snd lr)"
proof -
  from read_cis_pumf_Inr[OF rd nc out] obtain df1 kept b where
    k: "kept = filter (\<lambda>lr. no_missing (snd lr)) (rows df1)"
    and o: "out = df1\<lparr>rows := filter (\<lambda>lr. snd lr ! 5 \<in> Str `
              set (if b then agegp_codes_2012_17 else agegp_codes_2018_22)) kept\<rparr>"
    by blast
  show ?thesis by (simp add: o k)
qed

lemma load_data_row_origin:
  assumes nc: "no_clash_in fs (glob fs d p)" and out: "load_data fs d p = Inr out"
    and lr: "lr \<in> set (rows out)"
  shows "\<exists>f df0 df lr'. f \<in> set (glob fs d p) \<and> read_stata fs f = Inr df0 \<and>
           no_rename_clash df0 \<and> read_cis_pumf fs f = Inr df \<and>
           lr' \<in> set (rows df) \<and> snd lr' = snd lr"
proof -
  from load_data_Inr[OF nc out] obtain dfs where
    l2: "list_all2 (\<lambda>f df. read_cis_pumf fs f = Inr df) (glob fs d p) dfs"
    and o: "out = \<lparr>columns = cols,
                  rows = zip [0..<length (concat (map rows dfs))]
                           (concat (map (\<lambda>df. map snd (rows df)) dfs))\<rparr>"
    by blast
  from lr have "snd lr \<in> set (concat (map (\<lambda>df. map snd (rows df)) dfs))"
    unfolding o by (auto dest: snd_zip_mem)
  then obtain df lr' where df: "df \<in> set dfs" and l': "lr' \<in> set (rows df)" and s: "snd lr' = snd lr"
    by auto
  from df obtain i where i: "i < length dfs" and di: "dfs ! i = df"
    by (auto simp: in_set_conv_nth)
  have len: "length (glob fs d p) = length dfs" using l2 by (rule list_all2_lengthD)
  define f where "f = glob fs d p ! i"
  have r: "read_cis_pumf fs f = Inr df"
    using list_all2_nthD2[OF l2 i] di by (simp add: f_def)
  have fin: "f \<in> set (glob fs d p)" using i len by (simp add: f_def)
  from read_cis_pumf_reads[OF r] obtain df0 where rd: "read_stata fs f = Inr df0" by blast
  note c = no_clash_inD[OF nc fin rd]
  from fin rd c r l' s show ?thesis by blast
qed

lemma load_data_rows_no_missing:
  assumes nc: "no_clash_in fs (glob fs d p)" and out: "load_data fs d p = Inr out"
  shows "\<forall>lr\<in>set (rows out). no_missing (snd lr)"
proof
  fix lr assume "lr \<in> set (rows out)"
  from load_data_row_origin[OF nc out this] obtain f df0 df lr' where
    "read_stata fs f = Inr df0" "no_rename_clash df0" "read_cis_pumf fs f = Inr df"
    "lr' \<in> set (rows df)" "snd lr' = snd lr"
    by blast
  with read_cis_pumf_rows[of fs f df0 df] show "no_missing (snd lr)" by auto
qed

lemma no_codes_in_series:
  assumes c: "columns out = cols" and nm: "\<forall>lr\<in>set (rows out). no_missing (snd lr)"
  shows "\<forall>cc\<in>set missing_codes. \<exists>s. getitem_col out (fst cc) = Inr s \<and>
           length s = length (rows out) \<and> Str (snd cc) \<notin> set s"
  using nm by (auto simp: missing_codes_def getitem_col_cols[OF c] no_missing_def)

lemma length_filter_ne:
  "length (filter (\<lambda>x. f x \<noteq> v) xs) = length xs - count_list (map f xs) v"
proof -
  have "count_list (map f xs) v = length (filter (\<lambda>x. f x = v) xs)"
    by (induction xs) auto
  moreover have "length (filter (\<lambda>x. f x = v) xs) + length (filter (\<lambda>x. f x \<noteq> v) xs) = length xs"
    by (rule sum_length_filter_compl)
  ultimately show ?thesis by simp
qed

lemma year_2015: "year_2012_17 (Num 2015) = Inr True"
  by (simp add: year_2012_17_def)

lemma one_marst_missing_file:
  assumes rd: "read_stata fs f = Inr raw"
    and nc: "no_rename_clash raw"
    and out: "read_cis_pumf fs f = Inr df"
    and n: "length (rows raw) = 10"
    and ys: "getitem_col (rename_columns col_renamings raw) ''year'' = Inr ys"
            "set ys \<subseteq> {Num 2015}"
    and ms: "getitem_col (rename_columns col_renamings raw) ''marst'' = Inr ms"
            "count_list ms (Str ''99'') = 1"
    and oth: "\<forall>cc\<in>set (tl missing_codes).
                \<exists>s. getitem_col (rename_columns col_renamings raw) (fst cc) = Inr s \<and>
                    Str (snd cc) \<notin> set s"
    and ag: "getitem_col (rename_columns col_renamings raw) ''agegp'' = Inr ags"
            "set ags \<subseteq> Str ` set agegp_codes_2012_17"
  shows "length (rows df) = 9"
proof -
  let ?raw' = "rename_columns col_renamings raw"
  from read_cis_pumf_Inr[OF rd nc out] obtain df1 kept b where
    sel: "getitem_cols ?raw' cols = Inr df1"
    and c1: "columns df1 = cols"
    and k: "kept = filter (\<lambda>lr. no_missing (snd lr)) (rows df1)"
    and ne: "kept \<noteq> []"
    and b: "year_2012_17 (snd (hd kept) ! 0) = Inr b"
    and o: "df = df1\<lparr>rows := filter (\<lambda>lr. snd lr ! 5 \<in> Str `
              set (if b then agegp_codes_2012_17 else agegp_codes_2018_22)) kept\<rparr>"
    by blast
  have d: "distinct (columns ?raw')" using nc by (simp add: no_rename_clash_def)
  have e: "getitem_col ?raw' c = getitem_col df1 c" if "c \<in> set cols" for c
    using getitem_cols_series[OF d distinct_cols sel that] by simp
  have e_year: "getitem_col ?raw' ''year'' = Inr (map (\<lambda>lr. snd lr ! 0) (rows df1))"
    unfolding getitem_col_cols(1)[OF c1, symmetric] by (rule e) (simp add: cols_def)
  have e_agegp: "getitem_col ?raw' ''agegp'' = Inr (map (\<lambda>lr. snd lr ! 5) (rows df1))"
    unfolding getitem_col_cols(2)[OF c1, symmetric] by (rule e) (simp add: cols_def)
  have e_marst: "getitem_col ?raw' ''marst'' = Inr (map (\<lambda>lr. snd lr ! 6) (rows df1))"
    unfolding getitem_col_cols(3)[OF c1, symmetric] by (rule e) (simp add: cols_def)
  have e_immst: "getitem_col ?raw' ''immst'' = Inr (map (\<lambda>lr. snd lr ! 7) (rows df1))"
    unfolding getitem_col_cols(4)[OF c1, symmetric] by (rule e) (simp add: cols_def)
  have e_yrimmg: "getitem_col ?raw' ''yrimmg'' = Inr (map (\<lambda>lr. snd lr ! 8) (rows df1))"
    unfolding getitem_col_cols(5)[OF c1, symmetric] by (rule e) (simp add: cols_def)
  have e_dwltyp: "getitem_col ?raw' ''dwltyp'' = Inr (map (\<lambda>lr. snd lr ! 17) (rows df1))"
    unfolding getitem_col_cols(6)[OF c1, symmetric] by (rule e) (simp add: cols_def)
  have e_dwtenr: "getitem_col ?raw' ''dwtenr'' = Inr (map (\<lambda>lr. snd lr ! 18) (rows df1))"
    unfolding getitem_col_cols(7)[OF c1, symmetric] by (rule e) (simp add: cols_def)
  have e_suit: "getitem_col ?raw' ''suit'' = Inr (map (\<lambda>lr. snd lr ! 20) (rows df1))"
    unfolding getitem_col_cols(8)[OF c1, symmetric] by (rule e) (simp add: cols_def)
  have "length (map fst (rows df1)) = length (map fst (rows ?raw'))"
    by (simp only: getitem_cols_distinct(3)[OF d sel])
  then have n1: "length (rows df1) = 10"
    using n by (simp add: rename_columns_def)
  have ysm: "ys = map (\<lambda>lr. snd lr ! 0) (rows df1)"
    using ys(1) unfolding e_year by simp
  have agm: "ags = map (\<lambda>lr. snd lr ! 5) (rows df1)"
    using ag(1) unfolding e_agegp by simp
  have A: "\<forall>lr\<in>set (rows df1). snd lr ! 0 = Num 2015"
  proof
    fix lr assume "lr \<in> set (rows df1)"
    then have "snd lr ! 0 \<in> set ys" unfolding ysm by simp
    with ys(2) show "snd lr ! 0 = Num 2015" by blast
  qed
  have B: "\<forall>lr\<in>set (rows df1). snd lr ! 5 \<in> Str ` set agegp_codes_2012_17"
  proof
    fix lr assume "lr \<in> set (rows df1)"
    then have "snd lr ! 5 \<in> set ags" unfolding agm by simp
    with ag(2) show "snd lr ! 5 \<in> Str ` set agegp_codes_2012_17" by blast
  qed
  have M: "ms = map (\<lambda>lr. snd lr ! 6) (rows df1)"
    using ms(1) unfolding e_marst by simp
  have C: "\<forall>lr\<in>set (rows df1). snd lr ! 7 \<noteq> Str ''9'' \<and> snd lr ! 8 \<noteq> Str ''9'' \<and>
             snd lr ! 17 \<noteq> Str ''9'' \<and> snd lr ! 18 \<noteq> Str ''9'' \<and> snd lr ! 20 \<noteq> Str ''9''"
    using oth unfolding missing_codes_def
    by (simp add: e_immst e_yrimmg e_dwltyp e_dwtenr e_suit image_iff) auto
  have "kept = filter (\<lambda>lr. snd lr ! 6 \<noteq> Str ''99'') (rows df1)"
    unfolding k using C by (intro filter_cong refl) (auto simp: no_missing_def)
  then have lk: "length kept = 9"
    using ms(2) n1 by (simp add: length_filter_ne M)
  have kin: "set kept \<subseteq> set (rows df1)" by (auto simp: k)
  have "hd kept \<in> set kept" using ne by simp
  with kin A have "snd (hd kept) ! 0 = Num 2015" by blast
  with b have bt: "b = True" by (simp add: year_2015)
  have "rows df = kept"
    unfolding o bt using B kin by (auto intro: filter_True)
  with lk show ?thesis by simp
qed

lemma load_data_single_file:
  assumes nc: "no_clash_in fs (glob fs d p)" and out: "load_data fs d p = Inr out"
    and g: "glob fs d p = [f]"
  shows "\<exists>df. read_cis_pumf fs f = Inr df \<and> length (rows out) = length (rows df)"
proof -
  from load_data_Inr[OF nc out] obtain dfs where
    l2: "list_all2 (\<lambda>f df. read_cis_pumf fs f = Inr df) (glob fs d p) dfs"
    and o: "out = \<lparr>columns = cols,
                  rows = zip [0..<length (concat (map rows dfs))]
                           (concat (map (\<lambda>df. map snd (rows df)) dfs))\<rparr>"
    by blast
  from l2 g obtain df where dfs: "dfs = [df]" and r: "read_cis_pumf fs f = Inr df"
    by (auto simp: list_all2_Cons1)
  have "length (rows out) = length (rows df)" by (simp add: o dfs)
  with r show ?thesis by blast
qed






section \<open>Example runs\<close>

lemma read_2014: "read_cis_pumf dir_2014_2019 ''cis2014.dta'' = Inr out_2014"
  by code_simp

lemma read_2019: "read_cis_pumf dir_2014_2019 ''cis2019.dta'' = Inr out_2019"
  by code_simp

lemma load_2014_2019: "load_data dir_2014_2019 ''data'' ''*.dta'' = Inr out_2014_2019"
  by code_simp

lemma no_clash_2014_2019:
  "no_clash_in dir_2014_2019 (glob dir_2014_2019 ''data'' ''*.dta'')"
  by code_simp

lemma read_2015: "read_cis_pumf dir_2015_both_names ''cis2015.dta'' = Inr out_2015"
  by code_simp

lemma load_2015: "load_data dir_2015 ''data'' ''*.dta'' = Inr loaded_2015"
  by code_simp

lemma no_clash_2015: "no_clash_in dir_2015 (glob dir_2015 ''data'' ''*.dta'')"
  by code_simp

lemma cis2015_series:
  "getitem_col (rename_columns col_renamings cis2015) ''year'' = Inr (replicate 10 (Num 2015))"
  "getitem_col (rename_columns col_renamings cis2015) ''marst'' =
     Inr [Str ''01'', Str ''02'', Str ''01'', Str ''99'', Str ''03'',
          Str ''01'', Str ''04'', Str ''01'', Str ''02'', Str ''06'']"
  "getitem_col (rename_columns col_renamings cis2015) ''agegp'' =
     Inr [Str ''07'', Str ''08'', Str ''09'', Str ''10'', Str ''11'',
          Str ''12'', Str ''13'', Str ''14'', Str ''15'', Str ''07'']"
  "getitem_col (rename_columns col_renamings cis2015) ''immst'' = Inr (replicate 10 (Str ''2''))"
  "getitem_col (rename_columns col_renamings cis2015) ''yrimmg'' = Inr (replicate 10 (Str ''6''))"
  "getitem_col (rename_columns col_renamings cis2015) ''dwltyp'' = Inr (replicate 10 (Str ''1''))"
  "getitem_col (rename_columns col_renamings cis2015) ''dwtenr'' = Inr (replicate 10 (Str ''1''))"
  "getitem_col (rename_columns col_renamings cis2015) ''suit'' = Inr (replicate 10 (Str ''1''))"
  by code_simp+


section \<open>No file matches the pattern\<close>

text \<open>
  C4. When the pattern matches no file, \<open>load_data\<close> hands \<open>pd.concat\<close> an empty
  list and ends with its ValueError: no table, empty or not, is returned.
\<close>

theorem load_data_no_files:
  "glob fs data_dir pattern = [] \<Longrightarrow> load_data fs data_dir pattern = Inl ValueError"
  by (simp add: load_data_def concat_frames_def)

theorem load_data_no_files_witness:
  "glob (dir_of []) ''data'' ''*.dta'' = [] \<and>
   load_data (dir_of []) ''data'' ''*.dta'' = Inl ValueError"
proof -
  have h: "glob (dir_of []) ''data'' ''*.dta'' = []"
    by (simp add: dir_of_def)
  show ?thesis using h load_data_no_files[OF h] by simp
qed

section \<open>The combined table\<close>

text \<open>
  C5 (as stated, with 24 columns, it fails). The two files of 2014 and 2019 each leave 5
  rows; the combined table has 10 rows, and each row has 25 cells, not 24.
\<close>

theorem two_files_24_columns_counterexample:
  "load_data dir_2014_2019 ''data'' ''*.dta'' = Inr out_2014_2019 \<and>
   read_cis_pumf dir_2014_2019 ''cis2014.dta'' = Inr out_2014 \<and> length (rows out_2014) = 5 \<and>
   read_cis_pumf dir_2014_2019 ''cis2019.dta'' = Inr out_2019 \<and> length (rows out_2019) = 5 \<and>
   length (rows out_2014_2019) = 10 \<and>
   map (length \<circ> snd) (rows out_2014_2019) = replicate 10 25 \<and>
   map (length \<circ> snd) (rows out_2014_2019) \<noteq> replicate 10 24"
  by code_simp

text \<open>
  C5, amended. When no parsed file carries two names of one variable, the table that
  \<open>load_data\<close> returns holds the rows of the per-file tables, in the order in which
  the files were enumerated and in their order within each file; its index is
  \<open>0, 1, ...\<close>, whatever the index of the rows in their files was; and its columns are
  \<open>cols\<close>. Two files that each leave 5 rows give 10 rows of 25 cells.
\<close>

theorem load_data_concat:
  assumes nc: "no_clash_in fs (glob fs data_dir pattern)"
    and out: "load_data fs data_dir pattern = Inr out"
  shows "(\<exists>dfs. list_all2 (\<lambda>f df. read_cis_pumf fs f = Inr df) (glob fs data_dir pattern) dfs \<and>
            map snd (rows out) = concat (map (\<lambda>df. map snd (rows df)) dfs)) \<and>
         map fst (rows out) = [0..<length (rows out)] \<and>
         columns out = cols \<and>
         (\<forall>f1 f2 df1 df2.
            glob fs data_dir pattern = [f1, f2] \<and>
            read_cis_pumf fs f1 = Inr df1 \<and> length (rows df1) = 5 \<and>
            read_cis_pumf fs f2 = Inr df2 \<and> length (rows df2) = 5 \<longrightarrow>
            length (rows out) = 10 \<and> list_all (\<lambda>lr. length (snd lr) = 25) (rows out))"
proof -
  from load_data_Inr[OF nc out] obtain dfs where
    l2: "list_all2 (\<lambda>f df. read_cis_pumf fs f = Inr df) (glob fs data_dir pattern) dfs"
    and o: "out = \<lparr>columns = cols,
                  rows = zip [0..<length (concat (map rows dfs))]
                           (concat (map (\<lambda>df. map snd (rows df)) dfs))\<rparr>"
    by blast
  have s: "map snd (rows out) = concat (map (\<lambda>df. map snd (rows df)) dfs)"
    by (simp add: o length_concat_rows)
  have f: "map fst (rows out) = [0..<length (rows out)]"
    by (simp add: o length_concat_rows)
  have c: "columns out = cols" by (simp add: o)
  have len25: "list_all (\<lambda>lr. length (snd lr) = 25) (rows out)"
    using load_data_row_length[OF nc out] by (simp add: length_cols)
  have two: "length (rows out) = 10"
    if g: "glob fs data_dir pattern = [f1, f2]"
      and r1: "read_cis_pumf fs f1 = Inr df1" and n1: "length (rows df1) = 5"
      and r2: "read_cis_pumf fs f2 = Inr df2" and n2: "length (rows df2) = 5"
    for f1 f2 df1 df2
  proof -
    from l2 g r1 r2 have "dfs = [df1, df2]"
      by (auto simp: list_all2_Cons1)
    then show ?thesis using n1 n2 by (simp add: o)
  qed
  from l2 s have "\<exists>dfs. list_all2 (\<lambda>f df. read_cis_pumf fs f = Inr df) (glob fs data_dir pattern) dfs \<and>
            map snd (rows out) = concat (map (\<lambda>df. map snd (rows df)) dfs)"
    by blast
  with f c len25 two show ?thesis by blast
qed

theorem load_data_concat_witness:
  "no_clash_in dir_2014_2019 (glob dir_2014_2019 ''data'' ''*.dta'') \<and>
   load_data dir_2014_2019 ''data'' ''*.dta'' = Inr out_2014_2019 \<and>
   glob dir_2014_2019 ''data'' ''*.dta'' = [''cis2014.dta'', ''cis2019.dta''] \<and>
   read_cis_pumf dir_2014_2019 ''cis2014.dta'' = Inr out_2014 \<and> length (rows out_2014) = 5 \<and>
   read_cis_pumf dir_2014_2019 ''cis2019.dta'' = Inr out_2019 \<and> length (rows out_2019) = 5 \<and>
   map fst (rows out_2014_2019) = [0..<length (rows out_2014_2019)] \<and>
   columns out_2014_2019 = cols \<and>
   length (rows out_2014_2019) = 10 \<and>
   list_all (\<lambda>lr. length (snd lr) = 25) (rows out_2014_2019)"
proof -
  have g: "glob dir_2014_2019 ''data'' ''*.dta'' = [''cis2014.dta'', ''cis2019.dta'']"
    by code_simp
  have n1: "length (rows out_2014) = 5" by code_simp
  have n2: "length (rows out_2019) = 5" by code_simp
  note t = load_data_concat[OF no_clash_2014_2019 load_2014_2019]
  from t have a: "map fst (rows out_2014_2019) = [0..<length (rows out_2014_2019)]"
    and b: "columns out_2014_2019 = cols" by blast+
  from t g read_2014 n1 read_2019 n2
  have c: "length (rows out_2014_2019) = 10 \<and>
           list_all (\<lambda>lr. length (snd lr) = 25) (rows out_2014_2019)"
    by blast
  from no_clash_2014_2019 load_2014_2019 g read_2014 n1 read_2019 n2 a b c show ?thesis
    by blast
qed

section \<open>The columns of the result\<close>

text \<open>
  C1 (as stated, with 24 columns, it fails). The allowlist \<open>cols\<close> has 25 labels, and
  so has the table loaded from the 2014 file alone.
\<close>

theorem allowlist_24_counterexample:
  "load_data (dir_of [(''cis2014.dta'', cis2014)]) ''data'' ''*.dta'' =
     Inr \<lparr>columns = cols,
          rows = [(0, out_row 2014 ''07'' ''01''), (1, out_row 2014 ''09'' ''02''),
                  (2, out_row 2014 ''15'' ''03''), (3, out_row 2014 ''10'' ''01''),
                  (4, out_row 2014 ''12'' ''04'')]\<rparr> \<and>
   length cols = 25 \<and> length cols \<noteq> 24"
  by code_simp

text \<open>
  C1, amended. When no parsed file carries two names of one variable, the columns of
  the table that \<open>load_data\<close> returns are exactly the 25 labels of \<open>cols\<close>, in that
  order and without repetition, and every row has one cell per column, 25 in all.
\<close>

theorem load_data_columns:
  assumes "no_clash_in fs (glob fs data_dir pattern)"
    and "load_data fs data_dir pattern = Inr out"
  shows "columns out = cols \<and> length cols = 25 \<and> distinct cols \<and> wf_frame out \<and>
         list_all (\<lambda>lr. length (snd lr) = 25) (rows out)"
proof -
  from load_data_Inr[OF assms] have c: "columns out = cols" by auto
  from load_data_row_length[OF assms]
  have l: "list_all (\<lambda>lr. length (snd lr) = 25) (rows out)" by (simp add: length_cols)
  then have "wf_frame out" by (simp add: wf_frame_def c length_cols)
  with c l show ?thesis by (simp add: length_cols distinct_cols)
qed

theorem load_data_columns_witness:
  "no_clash_in dir_2014_2019 (glob dir_2014_2019 ''data'' ''*.dta'') \<and>
   load_data dir_2014_2019 ''data'' ''*.dta'' = Inr out_2014_2019 \<and>
   columns out_2014_2019 = cols \<and> length cols = 25 \<and> distinct cols \<and>
   wf_frame out_2014_2019 \<and>
   list_all (\<lambda>lr. length (snd lr) = 25) (rows out_2014_2019)"
  using load_data_columns[OF no_clash_2014_2019 load_2014_2019]
    no_clash_2014_2019 load_2014_2019 by blast

section \<open>Errors that end the whole run\<close>

text \<open>
  C6. If a parsed file lacks a label of \<open>cols\<close> after renaming, the per-file reader
  ends with a KeyError that names it, and \<open>load_data\<close> returns no table: it ends with
  an error, which is this KeyError when the files enumerated before it were read
  successfully.
\<close>

theorem missing_column_aborts:
  assumes f: "f \<in> set (glob fs data_dir pattern)"
    and rd: "read_stata fs f = Inr raw"
    and c: "c \<in> set cols"
    and a: "c \<notin> set (columns (rename_columns col_renamings raw))"
  shows "(\<exists>ks. read_cis_pumf fs f = Inl (KeyError ks) \<and> c \<in> set ks) \<and>
         (\<exists>e. load_data fs data_dir pattern = Inl e) \<and>
         (\<forall>pre post.
            glob fs data_dir pattern = pre @ f # post \<and>
            (\<forall>g\<in>set pre. \<exists>df. read_cis_pumf fs g = Inr df) \<longrightarrow>
            (\<exists>ks. load_data fs data_dir pattern = Inl (KeyError ks) \<and> c \<in> set ks))"
proof -
  from getitem_cols_missing[OF c a] obtain ks where
    k: "getitem_cols (rename_columns col_renamings raw) cols = Inl (KeyError ks)" and ck: "c \<in> set ks"
    by blast
  have r: "read_cis_pumf fs f = Inl (KeyError ks)"
    by (simp add: read_cis_pumf_def rd k)
  have 1: "\<exists>ks. read_cis_pumf fs f = Inl (KeyError ks) \<and> c \<in> set ks"
    using r ck by blast
  have 2: "\<exists>e. load_data fs data_dir pattern = Inl e"
    by (rule load_data_fails[OF f r])
  have 3: "\<exists>ks. load_data fs data_dir pattern = Inl (KeyError ks) \<and> c \<in> set ks"
    if "glob fs data_dir pattern = pre @ f # post"
      and "\<forall>g\<in>set pre. \<exists>df. read_cis_pumf fs g = Inr df" for pre post
    using read_all_first_failure[OF that(2) r, of post] that(1) ck
    by (auto simp: load_data_def)
  from 1 2 3 show ?thesis by blast
qed

theorem missing_column_aborts_witness:
  "''cis2018.dta'' \<in> set (glob dir_schema_error ''data'' ''*.dta'') \<and>
   read_stata dir_schema_error ''cis2018.dta'' = Inr cis_no_agegp \<and>
   ''agegp'' \<in> set cols \<and>
   ''agegp'' \<notin> set (columns (rename_columns col_renamings cis_no_agegp)) \<and>
   glob dir_schema_error ''data'' ''*.dta'' = [''cis2014.dta''] @ ''cis2018.dta'' # [] \<and>
   read_cis_pumf dir_schema_error ''cis2014.dta'' = Inr out_2014 \<and>
   (\<exists>ks. read_cis_pumf dir_schema_error ''cis2018.dta'' = Inl (KeyError ks) \<and> ''agegp'' \<in> set ks) \<and>
   (\<exists>ks. load_data dir_schema_error ''data'' ''*.dta'' = Inl (KeyError ks) \<and> ''agegp'' \<in> set ks)"
proof -
  have f: "''cis2018.dta'' \<in> set (glob dir_schema_error ''data'' ''*.dta'')" by code_simp
  have rd: "read_stata dir_schema_error ''cis2018.dta'' = Inr cis_no_agegp" by code_simp
  have c: "''agegp'' \<in> set cols" by code_simp
  have a: "''agegp'' \<notin> set (columns (rename_columns col_renamings cis_no_agegp))" by code_simp
  have g: "glob dir_schema_error ''data'' ''*.dta'' = [''cis2014.dta''] @ ''cis2018.dta'' # []"
    by code_simp
  have r: "read_cis_pumf dir_schema_error ''cis2014.dta'' = Inr out_2014" by code_simp
  then have pre: "\<forall>g\<in>set [''cis2014.dta'']. \<exists>df. read_cis_pumf dir_schema_error g = Inr df"
    by simp
  note t = missing_column_aborts[OF f rd c a]
  from t have 1: "\<exists>ks. read_cis_pumf dir_schema_error ''cis2018.dta'' = Inl (KeyError ks) \<and> ''agegp'' \<in> set ks"
    by blast
  from t g pre have 3: "\<exists>ks. load_data dir_schema_error ''data'' ''*.dta'' = Inl (KeyError ks) \<and> ''agegp'' \<in> set ks"
    by blast
  from f rd c a g r 1 3 show ?thesis by blast
qed

text \<open>
  C9. If the loop over the missing-value codes leaves no row of a file, the per-file
  reader does not return an empty table: \<open>iat[0]\<close> on the empty \<open>year\<close> series raises
  IndexError, and \<open>load_data\<close> ends with an error.
\<close>

theorem all_rows_missing_raises:
  assumes f: "f \<in> set (glob fs data_dir pattern)"
    and rd: "read_stata fs f = Inr raw"
    and nc: "no_rename_clash raw"
    and sel: "getitem_cols (rename_columns col_renamings raw) cols = Inr df1"
    and dm: "drop_missing df1 missing_codes = Inr df2"
    and e: "rows df2 = []"
  shows "read_cis_pumf fs f = Inl IndexError \<and> (\<exists>e. load_data fs data_dir pattern = Inl e)"
proof -
  have c1: "columns df1 = cols"
    using getitem_cols_distinct(1)[OF _ sel] nc by (simp add: no_rename_clash_def)
  from dm e have k: "filter (\<lambda>lr. no_missing (snd lr)) (rows df1) = []"
    unfolding drop_missing_cols[OF c1] by auto
  have r: "read_cis_pumf fs f = Inl IndexError"
    unfolding read_cis_pumf_eq[OF rd sel c1] k by simp
  with load_data_fails[OF f r] show ?thesis by blast
qed

theorem all_rows_missing_raises_witness:
  "''cis2016.dta'' \<in> set (glob dir_all_missing ''data'' ''*.dta'') \<and>
   read_stata dir_all_missing ''cis2016.dta'' = Inr cis_all_missing \<and>
   no_rename_clash cis_all_missing \<and>
   getitem_cols (rename_columns col_renamings cis_all_missing) cols =
     Inr \<lparr>columns = cols, rows = [(0, out_row 2016 ''08'' ''99''), (1, out_row 2016 ''09'' ''99'')]\<rparr> \<and>
   drop_missing
     \<lparr>columns = cols, rows = [(0, out_row 2016 ''08'' ''99''), (1, out_row 2016 ''09'' ''99'')]\<rparr>
     missing_codes = Inr \<lparr>columns = cols, rows = []\<rparr> \<and>
   read_cis_pumf dir_all_missing ''cis2016.dta'' = Inl IndexError \<and>
   (\<exists>e. load_data dir_all_missing ''data'' ''*.dta'' = Inl e)"
proof -
  have f: "''cis2016.dta'' \<in> set (glob dir_all_missing ''data'' ''*.dta'')" by code_simp
  have rd: "read_stata dir_all_missing ''cis2016.dta'' = Inr cis_all_missing" by code_simp
  have nc: "no_rename_clash cis_all_missing" by code_simp
  have sel: "getitem_cols (rename_columns col_renamings cis_all_missing) cols =
     Inr \<lparr>columns = cols, rows = [(0, out_row 2016 ''08'' ''99''), (1, out_row 2016 ''09'' ''99'')]\<rparr>"
    by code_simp
  have dm: "drop_missing
     \<lparr>columns = cols, rows = [(0, out_row 2016 ''08'' ''99''), (1, out_row 2016 ''09'' ''99'')]\<rparr>
     missing_codes = Inr \<lparr>columns = cols, rows = []\<rparr>"
    by code_simp
  have e: "rows \<lparr>columns = cols, rows = []\<rparr> = []" by simp
  from all_rows_missing_raises[OF f rd nc sel dm e] f rd nc sel dm show ?thesis by blast
qed

section \<open>Filtering\<close>

text \<open>
  C10. Filtering only drops rows: the table returned for a file has the columns of the
  parsed file renamed and projected onto \<open>cols\<close>, every one of its rows (index label
  and cells) is a row of that projection, and the rows are in the same relative order.
\<close>

theorem filtering_only_drops_rows:
  assumes rd: "read_stata fs f = Inr raw"
    and nc: "no_rename_clash raw"
    and out: "read_cis_pumf fs f = Inr out"
  shows "\<exists>df1. getitem_cols (rename_columns col_renamings raw) cols = Inr df1 \<and>
           columns out = columns df1 \<and>
           subseq (rows out) (rows df1) \<and>
           set (rows out) \<subseteq> set (rows df1)"
proof -
  from read_cis_pumf_Inr[OF rd nc out] obtain df1 kept b where
    df1: "getitem_cols (rename_columns col_renamings raw) cols = Inr df1"
    and k: "kept = filter (\<lambda>lr. no_missing (snd lr)) (rows df1)"
    and o: "out = df1\<lparr>rows := filter (\<lambda>lr. snd lr ! 5 \<in> Str `
              set (if b then agegp_codes_2012_17 else agegp_codes_2018_22)) kept\<rparr>"
    by blast
  have "subseq (rows out) kept" by (simp add: o)
  moreover have "subseq kept (rows df1)" by (simp add: k)
  ultimately have s: "subseq (rows out) (rows df1)" by (rule subseq_order.trans)
  have "set (rows out) \<subseteq> set (rows df1)" by (auto simp: o k)
  with df1 s o show ?thesis by auto
qed

theorem filtering_only_drops_rows_witness:
  "read_stata dir_2014_2019 ''cis2019.dta'' = Inr cis2019 \<and>
   no_rename_clash cis2019 \<and>
   read_cis_pumf dir_2014_2019 ''cis2019.dta'' = Inr out_2019 \<and>
   (\<exists>df1. getitem_cols (rename_columns col_renamings cis2019) cols = Inr df1 \<and>
      columns out_2019 = columns df1 \<and>
      subseq (rows out_2019) (rows df1) \<and>
      set (rows out_2019) \<subseteq> set (rows df1))"
proof -
  have rd: "read_stata dir_2014_2019 ''cis2019.dta'' = Inr cis2019" by code_simp
  have nc: "no_rename_clash cis2019" by code_simp
  from filtering_only_drops_rows[OF rd nc read_2019] rd nc read_2019 show ?thesis by blast
qed

section \<open>Renaming before selection\<close>

text \<open>
  C7. Renaming comes before the selection of \<open>cols\<close>. Take a file and a second one
  with the same rows whose marital-status and immigration columns carry the names of
  2018 onward, \<open>marstp\<close>, \<open>immstp\<close> and \<open>yrimmgp\<close>, where the first has \<open>marst\<close>,
  \<open>immst\<close> and \<open>yrimmg\<close>; \<open>agegp\<close> and every other label are the same in both. The
  per-file reader gives the same result for both, the same table or the same error, and
  a table it gives has the columns \<open>cols\<close>. Selecting \<open>cols\<close> from the second file as
  parsed, without the renaming, ends in a KeyError when the file has no \<open>marst\<close>.
\<close>

theorem post2018_names_same_output:
  assumes p: "read_stata fs p = Inr raw_pre"
    and q: "read_stata fs q = Inr raw_post"
    and cs: "columns raw_post = map post2018_label (columns raw_pre)"
    and rs: "rows raw_post = rows raw_pre"
  shows "read_cis_pumf fs q = read_cis_pumf fs p \<and>
         (\<forall>out. no_rename_clash raw_post \<and> read_cis_pumf fs q = Inr out \<longrightarrow>
                columns out = cols \<and> read_cis_pumf fs p = Inr out) \<and>
         (''marst'' \<notin> set (columns raw_post) \<longrightarrow>
            (\<exists>ks. getitem_cols raw_post cols = Inl (KeyError ks) \<and> ''marst'' \<in> set ks))"
proof -
  have e: "read_cis_pumf fs q = read_cis_pumf fs p"
    by (simp add: read_cis_pumf_def p q rename_post2018_label[OF cs rs])
  have s: "columns out = cols \<and> read_cis_pumf fs p = Inr out"
    if "no_rename_clash raw_post" and "read_cis_pumf fs q = Inr out" for out
    using read_cis_pumf_shape(1)[OF q that] that(2) e by simp
  have m: "''marst'' \<in> set cols" by (simp add: cols_def)
  have k: "\<exists>ks. getitem_cols raw_post cols = Inl (KeyError ks) \<and> ''marst'' \<in> set ks"
    if "''marst'' \<notin> set (columns raw_post)"
    by (rule getitem_cols_missing[OF m that])
  from e s k show ?thesis by blast
qed

theorem post2018_names_same_output_witness:
  "read_stata dir_2015_both_names ''cis2015.dta'' = Inr cis2015 \<and>
   read_stata dir_2015_both_names ''cis2015p.dta'' = Inr cis2015p \<and>
   columns cis2015 =
     [''verdate'',
      ''year'', ''pumfid'', ''personid'', ''fweight'',
      ''sex'', ''agegp'', ''marst'', ''immst'', ''yrimmg'',
      ''prov'', ''uszgap'',
      ''ttinc'', ''atinc'', ''mtinc'', ''gtr'',
      ''hhsize'', ''hhcomp'',
      ''dwltyp'', ''dwtenr'', ''repa'', ''suit'', ''mortg'', ''mortgm'', ''condmp'', ''rentm'',
      ''efsize''] \<and>
   columns cis2015p =
     [''verdate'',
      ''year'', ''pumfid'', ''personid'', ''fweight'',
      ''sex'', ''agegp'', ''marstp'', ''immstp'', ''yrimmgp'',
      ''prov'', ''uszgap'',
      ''ttinc'', ''atinc'', ''mtinc'', ''gtr'',
      ''hhsize'', ''hhcomp'',
      ''dwltyp'', ''dwtenr'', ''repa'', ''suit'', ''mortg'', ''mortgm'', ''condmp'', ''rentm'',
      ''efsize''] \<and>
   columns cis2015p = map post2018_label (columns cis2015) \<and>
   rows cis2015p = rows cis2015 \<and>
   no_rename_clash cis2015p \<and>
   ''marst'' \<notin> set (columns cis2015p) \<and>
   read_cis_pumf dir_2015_both_names ''cis2015p.dta'' = Inr out_2015 \<and>
   read_cis_pumf dir_2015_both_names ''cis2015.dta'' = Inr out_2015 \<and>
   columns out_2015 = cols \<and>
   (\<exists>ks. getitem_cols cis2015p cols = Inl (KeyError ks) \<and> ''marst'' \<in> set ks)"
proof -
  have p: "read_stata dir_2015_both_names ''cis2015.dta'' = Inr cis2015" by code_simp
  have q: "read_stata dir_2015_both_names ''cis2015p.dta'' = Inr cis2015p" by code_simp
  have c1: "columns cis2015 =
     [''verdate'',
      ''year'', ''pumfid'', ''personid'', ''fweight'',
      ''sex'', ''agegp'', ''marst'', ''immst'', ''yrimmg'',
      ''prov'', ''uszgap'',
      ''ttinc'', ''atinc'', ''mtinc'', ''gtr'',
      ''hhsize'', ''hhcomp'',
      ''dwltyp'', ''dwtenr'', ''repa'', ''suit'', ''mortg'', ''mortgm'', ''condmp'', ''rentm'',
      ''efsize'']" by code_simp
  have c2: "columns cis2015p =
     [''verdate'',
      ''year'', ''pumfid'', ''personid'', ''fweight'',
      ''sex'', ''agegp'', ''marstp'', ''immstp'', ''yrimmgp'',
      ''prov'', ''uszgap'',
      ''ttinc'', ''atinc'', ''mtinc'', ''gtr'',
      ''hhsize'', ''hhcomp'',
      ''dwltyp'', ''dwtenr'', ''repa'', ''suit'', ''mortg'', ''mortgm'', ''condmp'', ''rentm'',
      ''efsize'']" by code_simp
  have cs: "columns cis2015p = map post2018_label (columns cis2015)" by code_simp
  have rs: "rows cis2015p = rows cis2015" by code_simp
  have nc: "no_rename_clash cis2015p" by code_simp
  have nm: "''marst'' \<notin> set (columns cis2015p)" by code_simp
  have r: "read_cis_pumf dir_2015_both_names ''cis2015p.dta'' = Inr out_2015" by code_simp
  note t = post2018_names_same_output[OF p q cs rs]
  from t have e: "read_cis_pumf dir_2015_both_names ''cis2015p.dta'' =
                  read_cis_pumf dir_2015_both_names ''cis2015.dta''"
    by (rule conjunct1)
  from t nc r have s: "columns out_2015 = cols \<and>
                       read_cis_pumf dir_2015_both_names ''cis2015.dta'' = Inr out_2015"
    by blast
  from t nm have k: "\<exists>ks. getitem_cols cis2015p cols = Inl (KeyError ks) \<and> ''marst'' \<in> set ks"
    by blast
  from p q c1 c2 cs rs nc nm r s k show ?thesis by blast
qed

section \<open>Enumeration order\<close>

text \<open>
  C8. Two runs of \<open>load_data\<close> on the same directory, whose files are unchanged and
  are enumerated in any two orders: if one run returns a table, so does the other, with
  the same columns and the same multiset of rows; only the order of the rows, and so
  their index, can differ.
\<close>

theorem load_data_order_independent:
  assumes rs: "read_stata fs2 = read_stata fs1"
    and ms: "mset (glob fs2 data_dir pattern) = mset (glob fs1 data_dir pattern)"
    and nc: "no_clash_in fs1 (glob fs1 data_dir pattern)"
    and out1: "load_data fs1 data_dir pattern = Inr out1"
  shows "\<exists>out2. load_data fs2 data_dir pattern = Inr out2 \<and>
           columns out2 = columns out1 \<and>
           mset (map snd (rows out2)) = mset (map snd (rows out1))"
proof -
  define files1 where "files1 = glob fs1 data_dir pattern"
  define files2 where "files2 = glob fs2 data_dir pattern"
  define g where "g = (\<lambda>f. projr (read_cis_pumf fs1 f))"
  define h where "h = (\<lambda>df::frame. map snd (rows df))"
  have ms': "mset files2 = mset files1" using ms by (simp add: files1_def files2_def)
  then have set_eq: "set files2 = set files1" by (rule mset_eq_setD)
  from load_data_Inr[OF nc out1] obtain dfs1 where
    ne1: "dfs1 \<noteq> []"
    and l1: "list_all2 (\<lambda>f df. read_cis_pumf fs1 f = Inr df) files1 dfs1"
    and o1: "out1 = \<lparr>columns = cols,
                  rows = zip [0..<length (concat (map rows dfs1))]
                           (concat (map (\<lambda>df. map snd (rows df)) dfs1))\<rparr>"
    unfolding files1_def by blast
  have d1: "dfs1 = map g files1"
    unfolding g_def using l1 by (rule list_all2_functional)
  have ok1: "\<exists>df. read_cis_pumf fs1 f = Inr df" if "f \<in> set files1" for f
  proof -
    from that obtain i where i: "i < length files1" and fi: "files1 ! i = f"
      by (auto simp: in_set_conv_nth)
    from list_all2_nthD[OF l1 i] fi show ?thesis by auto
  qed
  have same: "read_cis_pumf fs2 f = read_cis_pumf fs1 f" for f
    by (rule read_cis_pumf_cong[OF rs])
  have ok2: "\<forall>f\<in>set files2. \<exists>df. read_cis_pumf fs1 f = Inr df"
    using ok1 set_eq by blast
  define dfs2 where "dfs2 = map g files2"
  have l2: "list_all2 (\<lambda>f df. read_cis_pumf fs2 f = Inr df) files2 dfs2"
    unfolding same dfs2_def g_def by (rule list_all2_map_projr[OF ok2])
  have nc2: "no_clash_in fs2 files2"
    using nc set_eq unfolding no_clash_in_def list_all_iff rs files1_def[symmetric] by blast
  have "files1 \<noteq> []" using ne1 d1 by auto
  then have "files2 \<noteq> []" using set_eq by (cases files2) auto
  then have ne2: "dfs2 \<noteq> []" by (simp add: dfs2_def)
  have ra2: "read_all fs2 files2 = Inr dfs2"
    using l2 by (simp only: read_all_Inr)
  define out2 where
    "out2 = \<lparr>columns = cols,
             rows = zip [0..<length (concat (map rows dfs2))]
                      (concat (map (\<lambda>df. map snd (rows df)) dfs2))\<rparr>"
  have cf2: "concat_frames dfs2 = Inr out2"
    unfolding out2_def
  proof (rule concat_frames_same[OF ne2 distinct_cols])
    show "\<forall>df\<in>set dfs2. columns df = cols"
      using read_all_shape(1)[OF nc2 l2] by blast
    show "\<forall>df\<in>set dfs2. list_all (\<lambda>lr. length (snd lr) = length cols) (rows df)"
      using read_all_shape(2)[OF nc2 l2] by blast
  qed
  have ld2: "load_data fs2 data_dir pattern = Inr out2"
    unfolding load_data_def Let_def files2_def[symmetric] ra2 by (simp only: sum.case cf2)
  have r2: "map snd (rows out2) = concat (map h dfs2)"
    unfolding out2_def h_def by (simp only: frame.simps snd_rows_zip)
  have r1: "map snd (rows out1) = concat (map h dfs1)"
    unfolding o1 h_def by (simp only: frame.simps snd_rows_zip)
  have "mset (concat (map h (map g files2))) = mset (concat (map h (map g files1)))"
    unfolding map_map mset_concat_map ms' by (rule refl)
  then have "mset (map snd (rows out2)) = mset (map snd (rows out1))"
    unfolding r1 r2 d1 dfs2_def .
  moreover have "columns out2 = columns out1" by (simp add: o1 out2_def)
  ultimately show ?thesis using ld2 by blast
qed

theorem load_data_order_independent_witness:
  "read_stata dir_2019_2014 = read_stata dir_2014_2019 \<and>
   glob dir_2014_2019 ''data'' ''*.dta'' = [''cis2014.dta'', ''cis2019.dta''] \<and>
   glob dir_2019_2014 ''data'' ''*.dta'' = [''cis2019.dta'', ''cis2014.dta''] \<and>
   mset (glob dir_2019_2014 ''data'' ''*.dta'') = mset (glob dir_2014_2019 ''data'' ''*.dta'') \<and>
   no_clash_in dir_2014_2019 (glob dir_2014_2019 ''data'' ''*.dta'') \<and>
   load_data dir_2014_2019 ''data'' ''*.dta'' = Inr out_2014_2019 \<and>
   (\<exists>out2. load_data dir_2019_2014 ''data'' ''*.dta'' = Inr out2 \<and>
      columns out2 = columns out_2014_2019 \<and>
      mset (map snd (rows out2)) = mset (map snd (rows out_2014_2019)))"
proof -
  have rs: "read_stata dir_2019_2014 = read_stata dir_2014_2019"
    by (simp add: dir_2019_2014_def)
  have g1: "glob dir_2014_2019 ''data'' ''*.dta'' = [''cis2014.dta'', ''cis2019.dta'']"
    by (simp add: dir_2014_2019_def dir_of_def)
  have g2: "glob dir_2019_2014 ''data'' ''*.dta'' = [''cis2019.dta'', ''cis2014.dta'']"
    by (simp add: dir_2019_2014_def)
  have ms: "mset (glob dir_2019_2014 ''data'' ''*.dta'') = mset (glob dir_2014_2019 ''data'' ''*.dta'')"
    unfolding g1 g2 by simp
  from load_data_order_independent[OF rs ms no_clash_2014_2019 load_2014_2019]
    rs g1 g2 ms no_clash_2014_2019 load_2014_2019
  show ?thesis by blast
qed

section \<open>Missing-value codes\<close>

text \<open>
  C3 (as stated, its scenario fails). A single file of year 2015 with 10 rows of which
  exactly one has \<open>marst\<close> equal to \<open>'99'\<close> does not always give 9 rows: here another
  row has the age group \<open>'03'\<close>, and 8 rows are left.
\<close>

theorem one_marst_missing_counterexample:
  "load_data dir_2015_low_age ''data'' ''*.dta'' = Inr loaded_2015_low_age \<and>
   glob dir_2015_low_age ''data'' ''*.dta'' = [''cis2015.dta''] \<and>
   read_stata dir_2015_low_age ''cis2015.dta'' = Inr cis2015_low_age \<and>
   length (rows cis2015_low_age) = 10 \<and>
   getitem_col cis2015_low_age ''year'' = Inr (replicate 10 (Num 2015)) \<and>
   getitem_col cis2015_low_age ''marst'' =
     Inr [Str ''01'', Str ''02'', Str ''01'', Str ''99'', Str ''03'',
          Str ''01'', Str ''04'', Str ''01'', Str ''02'', Str ''06''] \<and>
   count_list [Str ''01'', Str ''02'', Str ''01'', Str ''99'', Str ''03'',
          Str ''01'', Str ''04'', Str ''01'', Str ''02'', Str ''06''] (Str ''99'') = 1 \<and>
   length (rows loaded_2015_low_age) = 8 \<and>
   length (rows loaded_2015_low_age) \<noteq> 9"
  by code_simp

text \<open>
  C3, amended. In the table that \<open>load_data\<close> returns, no column of \<open>missing_codes\<close>
  holds its missing-value code in any row. In particular, for a single file of 10 rows,
  all of year 2015, of which exactly one has \<open>marst\<close> equal to \<open>'99'\<close>, and in which no
  other missing-value code and no age group outside the codes of 2012-17 occurs, the
  table has 9 rows (and, by the first part, none with \<open>marst\<close> equal to \<open>'99'\<close>).
\<close>

theorem no_missing_codes_in_output:
  assumes nc: "no_clash_in fs (glob fs data_dir pattern)"
    and out: "load_data fs data_dir pattern = Inr out"
  shows "(\<forall>cc\<in>set missing_codes.
            \<exists>s. getitem_col out (fst cc) = Inr s \<and> length s = length (rows out) \<and>
                Str (snd cc) \<notin> set s) \<and>
         (\<forall>f raw ys ms ags.
            glob fs data_dir pattern = [f] \<and> read_stata fs f = Inr raw \<and>
            length (rows raw) = 10 \<and>
            getitem_col (rename_columns col_renamings raw) ''year'' = Inr ys \<and>
            set ys \<subseteq> {Num 2015} \<and>
            getitem_col (rename_columns col_renamings raw) ''marst'' = Inr ms \<and>
            count_list ms (Str ''99'') = 1 \<and>
            (\<forall>cc\<in>set (tl missing_codes).
               \<exists>s. getitem_col (rename_columns col_renamings raw) (fst cc) = Inr s \<and>
                   Str (snd cc) \<notin> set s) \<and>
            getitem_col (rename_columns col_renamings raw) ''agegp'' = Inr ags \<and>
            set ags \<subseteq> Str ` set agegp_codes_2012_17 \<longrightarrow>
            length (rows out) = 9)"
proof -
  from load_data_Inr[OF nc out] have c: "columns out = cols" by auto
  have 1: "\<forall>cc\<in>set missing_codes.
            \<exists>s. getitem_col out (fst cc) = Inr s \<and> length s = length (rows out) \<and>
                Str (snd cc) \<notin> set s"
    by (rule no_codes_in_series[OF c load_data_rows_no_missing[OF nc out]])
  have 2: "length (rows out) = 9"
    if g: "glob fs data_dir pattern = [f]" and rd: "read_stata fs f = Inr raw"
      and n: "length (rows raw) = 10"
      and ys: "getitem_col (rename_columns col_renamings raw) ''year'' = Inr ys"
              "set ys \<subseteq> {Num 2015}"
      and ms: "getitem_col (rename_columns col_renamings raw) ''marst'' = Inr ms"
              "count_list ms (Str ''99'') = 1"
      and oth: "\<forall>cc\<in>set (tl missing_codes).
               \<exists>s. getitem_col (rename_columns col_renamings raw) (fst cc) = Inr s \<and>
                   Str (snd cc) \<notin> set s"
      and ag: "getitem_col (rename_columns col_renamings raw) ''agegp'' = Inr ags"
              "set ags \<subseteq> Str ` set agegp_codes_2012_17"
    for f raw ys ms ags
  proof -
    from load_data_single_file[OF nc out g] obtain df where
      r: "read_cis_pumf fs f = Inr df" and l: "length (rows out) = length (rows df)"
      by blast
    have fin: "f \<in> set (glob fs data_dir pattern)" by (simp add: g)
    note c = no_clash_inD[OF nc fin rd]
    from one_marst_missing_file[OF rd c r n ys ms oth ag] l show ?thesis by simp
  qed
  from 1 2 show ?thesis by blast
qed

theorem no_missing_codes_in_output_witness:
  "no_clash_in dir_2015 (glob dir_2015 ''data'' ''*.dta'') \<and>
   load_data dir_2015 ''data'' ''*.dta'' = Inr loaded_2015 \<and>
   glob dir_2015 ''data'' ''*.dta'' = [''cis2015.dta''] \<and>
   read_stata dir_2015 ''cis2015.dta'' = Inr cis2015 \<and>
   length (rows cis2015) = 10 \<and>
   getitem_col (rename_columns col_renamings cis2015) ''year'' = Inr (replicate 10 (Num 2015)) \<and>
   getitem_col (rename_columns col_renamings cis2015) ''marst'' =
     Inr [Str ''01'', Str ''02'', Str ''01'', Str ''99'', Str ''03'',
          Str ''01'', Str ''04'', Str ''01'', Str ''02'', Str ''06''] \<and>
   getitem_col loaded_2015 ''marst'' =
     Inr [Str ''01'', Str ''02'', Str ''01'', Str ''03'',
          Str ''01'', Str ''04'', Str ''01'', Str ''02'', Str ''06''] \<and>
   length (rows loaded_2015) = 9"
proof -
  have g: "glob dir_2015 ''data'' ''*.dta'' = [''cis2015.dta'']" by code_simp
  have rd: "read_stata dir_2015 ''cis2015.dta'' = Inr cis2015" by code_simp
  have n: "length (rows cis2015) = 10" by code_simp
  have ys: "set (replicate 10 (Num 2015)) \<subseteq> {Num 2015}" by simp
  have cnt: "count_list [Str ''01'', Str ''02'', Str ''01'', Str ''99'', Str ''03'',
          Str ''01'', Str ''04'', Str ''01'', Str ''02'', Str ''06''] (Str ''99'') = 1"
    by simp
  have oth: "\<forall>cc\<in>set (tl missing_codes).
               \<exists>s. getitem_col (rename_columns col_renamings cis2015) (fst cc) = Inr s \<and>
                   Str (snd cc) \<notin> set s"
    by (simp add: missing_codes_def cis2015_series)
  have ag: "set [Str ''07'', Str ''08'', Str ''09'', Str ''10'', Str ''11'',
          Str ''12'', Str ''13'', Str ''14'', Str ''15'', Str ''07'']
          \<subseteq> Str ` set agegp_codes_2012_17"
    by code_simp
  have m: "getitem_col loaded_2015 ''marst'' =
     Inr [Str ''01'', Str ''02'', Str ''01'', Str ''03'',
          Str ''01'', Str ''04'', Str ''01'', Str ''02'', Str ''06'']"
    by code_simp
  note t = no_missing_codes_in_output[OF no_clash_2015 load_2015]
  from t g rd n cis2015_series(1) ys cis2015_series(2) cnt oth cis2015_series(3) ag
  have "length (rows loaded_2015) = 9" by blast
  with no_clash_2015 load_2015 g rd n cis2015_series(1,2) m show ?thesis by blast
qed

section \<open>Age groups\<close>




end
